(* ===== verification/Prelude.thy ===== *)
theory Prelude
  imports Main "HOL-Library.AList"
begin

text \<open>
  Shared vocabulary of the development: the exceptions of the JavaScript runtime the
  client code can meet, a state-and-exception combinator for code that threads the
  browser's storage through calls that may throw, and generic lemmas on association
  lists (the model of the browser's key/value storage) that the component theories
  use through the \<open>prelude_simps\<close> collection.
\<close>

named_theorems prelude_simps "generic rewriting rules shared by the component theories"

subsection \<open>Exceptions of the runtime\<close>

text \<open>
  The DOM and ECMAScript exceptions the modelled code can raise: a blocked storage
  (\<open>SecurityError\<close>), a full storage (\<open>QuotaExceededError\<close>), \<open>JSON.parse\<close> on a
  malformed string (\<open>SyntaxError\<close>), and a property read on \<open>null\<close> or
  \<open>undefined\<close> (\<open>TypeError\<close>).
\<close>

datatype js_error = SecurityError | QuotaExceededError | SyntaxError | TypeError

subsection \<open>Stateful code that may throw\<close>

text \<open>
  A computation that reads and writes a state \<open>'s\<close> and either returns a value or
  throws: the state it leaves behind is kept on both paths, as a JavaScript
  statement that throws after a write keeps the write.
\<close>

type_synonym ('e, 's, 'a) est = "'s \<Rightarrow> ('e + 'a) \<times> 's"

definition ereturn :: "'a \<Rightarrow> ('e, 's, 'a) est" where
  "ereturn a = (\<lambda>s. (Inr a, s))"

definition ethrow :: "'e \<Rightarrow> ('e, 's, 'a) est" where
  "ethrow e = (\<lambda>s. (Inl e, s))"

definition elift :: "'e + 'a \<Rightarrow> ('e, 's, 'a) est" where
  "elift r = (\<lambda>s. (r, s))"

definition ebind :: "('e, 's, 'a) est \<Rightarrow> ('a \<Rightarrow> ('e, 's, 'b) est) \<Rightarrow> ('e, 's, 'b) est" where
  "ebind m f = (\<lambda>s. case m s of (Inl e, s') \<Rightarrow> (Inl e, s') | (Inr a, s') \<Rightarrow> f a s')"

text \<open>\<open>try { body } catch (e) { handler(e) }\<close>: the handler sees the state the body left.\<close>

definition ecatch :: "('e, 's, 'a) est \<Rightarrow> ('e \<Rightarrow> ('f, 's, 'a) est) \<Rightarrow> ('f, 's, 'a) est" where
  "ecatch m h = (\<lambda>s. case m s of (Inl e, s') \<Rightarrow> h e s' | (Inr a, s') \<Rightarrow> (Inr a, s'))"

lemma ebind_simps [prelude_simps]:
  "ebind (ereturn a) f = f a"
  "ebind (ethrow e) f = ethrow e"
  "ebind (elift (Inr a)) f = f a"
  "ebind (elift (Inl e)) f = ethrow e"
  by (simp_all add: ebind_def ereturn_def ethrow_def elift_def fun_eq_iff)

lemma ebind_apply [prelude_simps]:
  "m s = (Inr a, s') \<Longrightarrow> ebind m f s = f a s'"
  "m s = (Inl e, s') \<Longrightarrow> ebind m f s = (Inl e, s')"
  by (simp_all add: ebind_def)

lemma ecatch_apply [prelude_simps]:
  "m s = (Inr a, s') \<Longrightarrow> ecatch m h s = (Inr a, s')"
  "m s = (Inl e, s') \<Longrightarrow> ecatch m h s = h e s'"
  by (simp_all add: ecatch_def)

lemma est_apply [prelude_simps]:
  "ereturn a s = (Inr a, s)"
  "ethrow e s = (Inl e, s)"
  "elift r s = (r, s)"
  by (simp_all add: ereturn_def ethrow_def elift_def)

text \<open>Errors of one computation mapped into the error type of its caller.\<close>

definition emap_err :: "('e \<Rightarrow> 'f) \<Rightarrow> ('e, 's, 'a) est \<Rightarrow> ('f, 's, 'a) est" where
  "emap_err g m = (\<lambda>s. case m s of (r, s') \<Rightarrow> (map_sum g id r, s'))"

text \<open>A computation that keeps every state it runs from unchanged.\<close>

definition read_only :: "('e, 's, 'a) est \<Rightarrow> bool" where
  "read_only m \<longleftrightarrow> (\<forall>s. snd (m s) = s)"


lemma emap_err_apply [prelude_simps]:
  "m s = (Inr a, s') \<Longrightarrow> emap_err g m s = (Inr a, s')"
  "m s = (Inl e, s') \<Longrightarrow> emap_err g m s = (Inl (g e), s')"
  by (simp_all add: emap_err_def)

lemma emap_err_InrD:
  assumes "emap_err g m s = (Inr a, s')"
  shows "m s = (Inr a, s')"
proof (cases "m s")
  case (Pair r s1)
  with assms show ?thesis by (cases r) (simp_all add: emap_err_def)
qed

lemma ebind_InrD:
  assumes "ebind m f s = (Inr b, s'')"
  obtains a s' where "m s = (Inr a, s')" and "f a s' = (Inr b, s'')"
proof (cases "m s")
  case (Pair r s1)
  with assms that show ?thesis by (cases r) (simp_all add: ebind_def)
qed

lemma read_onlyD: "read_only m \<Longrightarrow> m s = (r, s') \<Longrightarrow> s' = s"
  by (metis read_only_def snd_conv)

lemma ebind_read_only_InrD:
  assumes "ebind m f s = (Inr b, s'')" and "read_only m"
  obtains a where "m s = (Inr a, s)" and "f a s = (Inr b, s'')"
  using assms(1) by (rule ebind_InrD) (metis assms(2) read_onlyD that)

lemma read_only_ebind:
  assumes m: "read_only m" and f: "\<And>a. read_only (f a)"
  shows "read_only (ebind m f)"
  unfolding read_only_def
proof
  fix s
  obtain r s' where ms: "m s = (r, s')" by (cases "m s")
  with m have "s' = s" by (metis read_only_def snd_conv)
  with ms f show "snd (ebind m f s) = s"
    by (cases r) (simp_all add: ebind_def read_only_def)
qed

lemma read_only_ecatch:
  assumes m: "read_only m" and h: "\<And>e. read_only (h e)"
  shows "read_only (ecatch m h)"
  unfolding read_only_def
proof
  fix s
  obtain r s' where ms: "m s = (r, s')" by (cases "m s")
  with m have "s' = s" by (metis read_only_def snd_conv)
  with ms h show "snd (ecatch m h s) = s"
    by (cases r) (simp_all add: ecatch_def read_only_def)
qed

lemma read_only_basic [prelude_simps]:
  "read_only (ereturn a)" "read_only (ethrow e)" "read_only (elift r)"
  by (simp_all add: read_only_def est_apply)

subsection \<open>Association lists\<close>

text \<open>Lookups after the library's update and delete, in the form the storage proofs use.\<close>

lemma map_of_AList_update [prelude_simps]:
  "map_of (AList.update k v al) k' = (if k' = k then Some v else map_of al k')"
  by (simp add: update_conv')

lemma map_of_AList_delete [prelude_simps]:
  "map_of (AList.delete k al) k' = (if k' = k then None else map_of al k')"
  by (simp add: delete_conv')

lemma distinct_AList_update [prelude_simps]:
  "distinct (map fst al) \<Longrightarrow> distinct (map fst (AList.update k v al))"
  by (rule distinct_update)

lemma distinct_AList_delete [prelude_simps]:
  "distinct (map fst al) \<Longrightarrow> distinct (map fst (AList.delete k al))"
  by (rule distinct_delete)

text \<open>The weight of an entry list (any additive measure of its entries).\<close>

definition weight :: "('k \<times> 'v \<Rightarrow> nat) \<Rightarrow> ('k \<times> 'v) list \<Rightarrow> nat" where
  "weight w al = sum_list (map w al)"

lemma delete_absorb:
  "AList.delete k (AList.delete k' (AList.delete k al)) = AList.delete k' (AList.delete k al)"
  by (metis delete_idem delete_twist)

lemma weight_delete_le:
  "weight w (AList.delete k al) \<le> weight w al"
  by (induction al) (auto simp: weight_def)

subsection \<open>Sequencing\<close>

lemma ebind_assoc: "ebind (ebind m f) g = ebind m (\<lambda>a. ebind (f a) g)"
  by (rule ext) (simp add: ebind_def split: prod.splits sum.splits)

lemma ebind_read_only_elift:
  "read_only m \<Longrightarrow> ebind m f s = ebind (elift (fst (m s))) f s"
proof -
  assume m: "read_only m"
  obtain r s' where ms: "m s = (r, s')" by (cases "m s")
  with m have "s' = s" by (rule read_onlyD)
  with ms show ?thesis by (cases r) (simp_all add: ebind_def elift_def)
qed

end
