(* ===== verification/Json.thy ===== *)
theory Json
  imports Prelude
begin

text \<open>
  The JavaScript values the client code handles: JSON documents exchanged with the
  server and kept in the browser's storage, with \<open>undefined\<close> as \<open>None\<close>. This theory
  models the parts of the ECMAScript runtime that \<open>src/services/authService.js\<close> and
  \<open>src/services/loanService.js\<close> rely on: truthiness (\<open>if (x)\<close>, \<open>!!x\<close>, \<open>x || y\<close>),
  the conversion \<open>ToString\<close> that \<open>localStorage.setItem\<close> and template literals apply,
  property reads, object literals, \<open>JSON.stringify\<close> and \<open>JSON.parse\<close>. Numbers are
  the integers (fractions and exponents are not modelled: the parser rejects them);
  strings are byte strings (a \<open>\u\<close> escape above \<open>0xFF\<close> is rejected).
\<close>

subsection \<open>Values\<close>

datatype json =
    JNull
  | JBool bool
  | JNum int
  | JStr string
  | JArr "json list"
  | JObj "(string \<times> json) list"

text \<open>A JavaScript value that may be \<open>undefined\<close> (an absent property, a missing argument).\<close>

type_synonym jsval = "json option"

fun join_with :: "'a \<Rightarrow> 'a list list \<Rightarrow> 'a list" where
  "join_with sep [] = []"
| "join_with sep [x] = x"
| "join_with sep (x # xs) = x @ sep # join_with sep xs"

subsection \<open>Truthiness\<close>

fun truthy :: "json \<Rightarrow> bool" where
  "truthy JNull = False"
| "truthy (JBool b) = b"
| "truthy (JNum n) = (n \<noteq> 0)"
| "truthy (JStr s) = (s \<noteq> [])"
| "truthy (JArr xs) = True"
| "truthy (JObj kvs) = True"

definition truthy_val :: "jsval \<Rightarrow> bool" where
  "truthy_val v = (case v of None \<Rightarrow> False | Some j \<Rightarrow> truthy j)"

subsection \<open>Decimal digits\<close>

definition digit_char :: "nat \<Rightarrow> char" where
  "digit_char d = char_of (48 + d)"

definition is_digit :: "char \<Rightarrow> bool" where
  "is_digit c \<longleftrightarrow> (48::nat) \<le> of_char c \<and> of_char c \<le> (57::nat)"

fun nat_digits :: "nat \<Rightarrow> string" where
  "nat_digits n = (if n < 10 then [digit_char n] else nat_digits (n div 10) @ [digit_char (n mod 10)])"

definition int_to_dec :: "int \<Rightarrow> string" where
  "int_to_dec i = (if i < 0 then CHR ''-'' # nat_digits (nat (- i)) else nat_digits (nat i))"

subsection \<open>ToString\<close>

text \<open>
  \<open>String(v)\<close>: arrays are joined with commas, their \<open>null\<close> elements printing as
  the empty string; every plain object prints as \<open>[object Object]\<close>.
\<close>

fun js_to_string :: "json \<Rightarrow> string" where
  "js_to_string JNull = ''null''"
| "js_to_string (JBool b) = (if b then ''true'' else ''false'')"
| "js_to_string (JNum n) = int_to_dec n"
| "js_to_string (JStr s) = s"
| "js_to_string (JArr xs) = join_with (CHR '','') (map (\<lambda>x. if x = JNull then [] else js_to_string x) xs)"
| "js_to_string (JObj kvs) = ''[object Object]''"

definition js_str :: "jsval \<Rightarrow> string" where
  "js_str v = (case v of None \<Rightarrow> ''undefined'' | Some j \<Rightarrow> js_to_string j)"

subsection \<open>Property reads and object literals\<close>

text \<open>
  \<open>x.k\<close>: a \<open>TypeError\<close> on \<open>null\<close> and \<open>undefined\<close>; \<open>undefined\<close> for a key a
  primitive or an object does not have. An object's own property is its last binding,
  as for an object \<open>JSON.parse\<close> built from a document with a repeated key.
\<close>

definition js_get :: "jsval \<Rightarrow> string \<Rightarrow> js_error + jsval" where
  "js_get v k = (case v of
      None \<Rightarrow> Inl TypeError
    | Some JNull \<Rightarrow> Inl TypeError
    | Some (JObj kvs) \<Rightarrow> Inr (map_of (rev kvs) k)
    | Some _ \<Rightarrow> Inr None)"

text \<open>
  An object literal \<open>{k1: e1, ...}\<close> as it reaches the server: \<open>JSON.stringify\<close>
  drops the properties whose value is \<open>undefined\<close>.
\<close>

definition obj_lit :: "(string \<times> jsval) list \<Rightarrow> json" where
  "obj_lit fs = JObj [(k, the v). (k, v) \<leftarrow> fs, v \<noteq> None]"

subsection \<open>JSON.stringify\<close>

definition dquote :: char where
  "dquote = CHR 0x22"

definition bslash :: char where
  "bslash = CHR 0x5C"

definition hex_digit :: "nat \<Rightarrow> char" where
  "hex_digit n = (if n < 10 then char_of (48 + n) else char_of (87 + n))"

text \<open>
  \<open>QuoteJSONString\<close>: the quote and the backslash are escaped, the five control
  characters with a short escape get it, the other control characters a lowercase
  \<open>\u00XX\<close>; every other character is copied.
\<close>

definition esc_char :: "char \<Rightarrow> string" where
  "esc_char c = (let n = (of_char c :: nat) in
      if n = 34 then [bslash, dquote]
      else if n = 92 then [bslash, bslash]
      else if n = 8 then [bslash, CHR ''b'']
      else if n = 12 then [bslash, CHR ''f'']
      else if n = 10 then [bslash, CHR ''n'']
      else if n = 13 then [bslash, CHR ''r'']
      else if n = 9 then [bslash, CHR ''t'']
      else if n < 32 then [bslash, CHR ''u'', CHR ''0'', CHR ''0'', hex_digit (n div 16), hex_digit (n mod 16)]
      else [c])"

definition quote_str :: "string \<Rightarrow> string" where
  "quote_str s = dquote # concat (map esc_char s) @ [dquote]"

fun stringify :: "json \<Rightarrow> string" where
  "stringify JNull = ''null''"
| "stringify (JBool b) = (if b then ''true'' else ''false'')"
| "stringify (JNum n) = int_to_dec n"
| "stringify (JStr s) = quote_str s"
| "stringify (JArr xs) = CHR ''['' # join_with (CHR '','') (map stringify xs) @ [CHR '']'']"
| "stringify (JObj kvs) =
     CHR ''{'' # join_with (CHR '','') (map (\<lambda>p. quote_str (fst p) @ CHR '':'' # stringify (snd p)) kvs)
       @ [CHR ''}'']"

text \<open>\<open>JSON.stringify(v)\<close> on a value that may be \<open>undefined\<close> returns \<open>undefined\<close> for it.\<close>

definition json_stringify :: "jsval \<Rightarrow> jsval" where
  "json_stringify v = map_option (\<lambda>j. JStr (stringify j)) v"

subsection \<open>JSON.parse\<close>

definition is_ws :: "char \<Rightarrow> bool" where
  "is_ws c \<longleftrightarrow> of_char c \<in> {9, 10, 13, 32::nat}"

fun skip_ws :: "string \<Rightarrow> string" where
  "skip_ws [] = []"
| "skip_ws (c # cs) = (if is_ws c then skip_ws cs else c # cs)"

definition hex_val :: "char \<Rightarrow> nat option" where
  "hex_val c = (let n = (of_char c :: nat) in
      if 48 \<le> n \<and> n \<le> 57 then Some (n - 48)
      else if 97 \<le> n \<and> n \<le> 102 then Some (n - 87)
      else if 65 \<le> n \<and> n \<le> 70 then Some (n - 55)
      else None)"

text \<open>The code unit of a \<open>\uXXXX\<close> escape; one above \<open>0xFF\<close> is outside the byte strings of the model.\<close>

definition hex4 :: "string \<Rightarrow> char option" where
  "hex4 s = (if length s = 4 \<and> list_all (\<lambda>c. hex_val c \<noteq> None) s
     then (let n = foldl (\<lambda>acc c. 16 * acc + the (hex_val c)) 0 s in
           if n < 256 then Some (char_of n) else None)
     else None)"

definition simple_escape :: "char \<Rightarrow> char option" where
  "simple_escape e =
     (if e = dquote then Some dquote
      else if e = bslash then Some bslash
      else if e = CHR ''/'' then Some (CHR ''/'')
      else if e = CHR ''b'' then Some (char_of (8::nat))
      else if e = CHR ''f'' then Some (char_of (12::nat))
      else if e = CHR ''n'' then Some (char_of (10::nat))
      else if e = CHR ''r'' then Some (char_of (13::nat))
      else if e = CHR ''t'' then Some (char_of (9::nat))
      else None)"

definition cons_fst :: "'a \<Rightarrow> ('a list \<times> 'b) option \<Rightarrow> ('a list \<times> 'b) option" where
  "cons_fst x r = map_option (\<lambda>(xs, rest). (x # xs, rest)) r"

text \<open>The body of a string literal, after its opening quote: the characters up to the closing quote and what follows it.\<close>

fun parse_str :: "string \<Rightarrow> (string \<times> string) option" where
  "parse_str [] = None"
| "parse_str (c # cs) =
     (if c = dquote then Some ([], cs)
      else if c = bslash then
        (case cs of
          [] \<Rightarrow> None
        | e # r \<Rightarrow>
            if e = CHR ''u'' then
              (case hex4 (take 4 r) of None \<Rightarrow> None | Some d \<Rightarrow> cons_fst d (parse_str (drop 4 r)))
            else
              (case simple_escape e of None \<Rightarrow> None | Some d \<Rightarrow> cons_fst d (parse_str r)))
      else if of_char c < (32::nat) then None
      else cons_fst c (parse_str cs))"

definition digits_value :: "string \<Rightarrow> nat" where
  "digits_value ds = foldl (\<lambda>acc d. 10 * acc + (of_char d - 48)) 0 ds"

text \<open>An unsigned integer: \<open>0\<close>, or a nonzero digit and the digits after it (a leading zero ends the number).\<close>

definition parse_nat :: "string \<Rightarrow> (nat \<times> string) option" where
  "parse_nat s = (case s of
      [] \<Rightarrow> None
    | d # r \<Rightarrow>
        if d = CHR ''0'' then Some (0, r)
        else if is_digit d then Some (digits_value (takeWhile is_digit s), dropWhile is_digit s)
        else None)"

definition parse_num :: "string \<Rightarrow> (int \<times> string) option" where
  "parse_num s = (case s of
      [] \<Rightarrow> None
    | c # r \<Rightarrow>
        if c = CHR ''-'' then map_option (\<lambda>(n, rest). (- int n, rest)) (parse_nat r)
        else map_option (\<lambda>(n, rest). (int n, rest)) (parse_nat s))"

text \<open>
  An object built by \<open>JSON.parse\<close> binds each key once, at the position of its first
  occurrence, to the value of its last one.
\<close>

definition build_obj :: "(string \<times> json) list \<Rightarrow> (string \<times> json) list" where
  "build_obj kvs = foldl (\<lambda>acc p. AList.update (fst p) (snd p) acc) [] kvs"

text \<open>
  The recursive-descent parser, with fuel: each call spends one unit. The elements of an
  array and the members of an object are parsed by \<open>parse_elems\<close> and
  \<open>parse_members\<close>, after the opening bracket; each returns the rest of the input
  after the closing bracket.
\<close>

fun parse_value :: "nat \<Rightarrow> string \<Rightarrow> (json \<times> string) option"
and parse_elems :: "nat \<Rightarrow> string \<Rightarrow> (json list \<times> string) option"
and parse_members :: "nat \<Rightarrow> string \<Rightarrow> ((string \<times> json) list \<times> string) option" where
  "parse_value 0 s = None"
| "parse_value (Suc n) s =
     (case skip_ws s of
       [] \<Rightarrow> None
     | c # cs \<Rightarrow>
         if c = CHR ''n'' then (if take 3 cs = ''ull'' then Some (JNull, drop 3 cs) else None)
         else if c = CHR ''t'' then (if take 3 cs = ''rue'' then Some (JBool True, drop 3 cs) else None)
         else if c = CHR ''f'' then (if take 4 cs = ''alse'' then Some (JBool False, drop 4 cs) else None)
         else if c = dquote then map_option (\<lambda>(str, rest). (JStr str, rest)) (parse_str cs)
         else if c = CHR ''['' then
           (let r = skip_ws cs in
            if r \<noteq> [] \<and> hd r = CHR '']'' then Some (JArr [], tl r)
            else map_option (\<lambda>(xs, rest). (JArr xs, rest)) (parse_elems n cs))
         else if c = CHR ''{'' then
           (let r = skip_ws cs in
            if r \<noteq> [] \<and> hd r = CHR ''}'' then Some (JObj [], tl r)
            else map_option (\<lambda>(kvs, rest). (JObj (build_obj kvs), rest)) (parse_members n cs))
         else if c = CHR ''-'' \<or> is_digit c then
           map_option (\<lambda>(i, rest). (JNum i, rest)) (parse_num (c # cs))
         else None)"
| "parse_elems 0 s = None"
| "parse_elems (Suc n) s =
     (case parse_value n s of
       None \<Rightarrow> None
     | Some (v, r) \<Rightarrow>
         (case skip_ws r of
           [] \<Rightarrow> None
         | c # r' \<Rightarrow>
             if c = CHR '','' then cons_fst v (parse_elems n r')
             else if c = CHR '']'' then Some ([v], r')
             else None))"
| "parse_members 0 s = None"
| "parse_members (Suc n) s =
     (case skip_ws s of
       [] \<Rightarrow> None
     | c # r \<Rightarrow>
         if c \<noteq> dquote then None
         else (case parse_str r of
           None \<Rightarrow> None
         | Some (k, r1) \<Rightarrow>
             (case skip_ws r1 of
               [] \<Rightarrow> None
             | d # r2 \<Rightarrow>
                 if d \<noteq> CHR '':'' then None
                 else (case parse_value n r2 of
                   None \<Rightarrow> None
                 | Some (v, r3) \<Rightarrow>
                     (case skip_ws r3 of
                       [] \<Rightarrow> None
                     | e # r4 \<Rightarrow>
                         if e = CHR '','' then cons_fst (k, v) (parse_members n r4)
                         else if e = CHR ''}'' then Some ([(k, v)], r4)
                         else None)))))"

text \<open>
  \<open>JSON.parse(s)\<close>: one value, surrounded by white space only. Every call of the parser
  consumes a character or is one of at most two calls made before the next one is
  consumed, so twice the length of the input and two more is enough fuel.
\<close>

definition json_parse :: "string \<Rightarrow> js_error + json" where
  "json_parse s = (case parse_value (2 * length s + 2) s of
      None \<Rightarrow> Inl SyntaxError
    | Some (v, rest) \<Rightarrow> if skip_ws rest = [] then Inr v else Inl SyntaxError)"

subsection \<open>Well-formed values and the parser's fuel\<close>

text \<open>
  A JavaScript object has each key once; \<open>wf_json\<close> asks it of every object in a
  value. \<open>jsize\<close> bounds the fuel the parser spends on the printed value, and
  \<open>starts_digit\<close> says when a numeral printed before a text would run into it.
\<close>

fun wf_json :: "json \<Rightarrow> bool" where
  "wf_json (JArr xs) = list_all wf_json xs"
| "wf_json (JObj kvs) = (distinct (map fst kvs) \<and> list_all (\<lambda>p. wf_json (snd p)) kvs)"
| "wf_json _ = True"

fun jsize :: "json \<Rightarrow> nat" where
  "jsize (JArr xs) = Suc (sum_list (map (\<lambda>x. Suc (jsize x)) xs))"
| "jsize (JObj kvs) = Suc (sum_list (map (\<lambda>p. Suc (jsize (snd p))) kvs))"
| "jsize _ = 0"

definition starts_digit :: "string \<Rightarrow> bool" where
  "starts_digit r \<longleftrightarrow> r \<noteq> [] \<and> is_digit (hd r)"

end
