(* ===== verification/Local_Storage.thy ===== *)
theory Local_Storage
  imports Prelude
begin

text \<open>
  The browser's \<open>localStorage\<close> (Web Storage), the durable state of the client: the
  session is kept in it under the keys \<open>token\<close> and \<open>user\<close>
  (\<open>src/services/authService.js\<close>). Its entries are an association list of strings in
  insertion order (a key is replaced in place); a write that would take the entries
  past the origin's quota throws \<open>QuotaExceededError\<close> and changes nothing; when the
  storage is blocked (a browser setting, a sandboxed frame), every access throws
  \<open>SecurityError\<close>. The abstraction \<open>store_map\<close> reads the entries as a map;
  \<open>setItem\<close>, \<open>removeItem\<close> and \<open>getItem\<close> refine map update, deletion and lookup.
\<close>

record storage =
  items :: "(string \<times> string) list"
  quota :: nat
  available :: bool

text \<open>The quota counts the characters of keys and values.\<close>

definition entry_size :: "string \<times> string \<Rightarrow> nat" where
  "entry_size p = length (fst p) + length (snd p)"

definition usage :: "(string \<times> string) list \<Rightarrow> nat" where
  "usage its = weight entry_size its"

definition getItem :: "string \<Rightarrow> (js_error, storage, string option) est" where
  "getItem k = (\<lambda>st.
     if \<not> available st then (Inl SecurityError, st)
     else (Inr (map_of (items st) k), st))"

definition setItem :: "string \<Rightarrow> string \<Rightarrow> (js_error, storage, unit) est" where
  "setItem k v = (\<lambda>st.
     if \<not> available st then (Inl SecurityError, st)
     else (let its = AList.update k v (items st) in
           if quota st < usage its then (Inl QuotaExceededError, st)
           else (Inr (), st\<lparr>items := its\<rparr>)))"

definition removeItem :: "string \<Rightarrow> (js_error, storage, unit) est" where
  "removeItem k = (\<lambda>st.
     if \<not> available st then (Inl SecurityError, st)
     else (Inr (), st\<lparr>items := AList.delete k (items st)\<rparr>))"

subsection \<open>Well-formed storage and its abstraction\<close>

definition storage_inv :: "storage \<Rightarrow> bool" where
  "storage_inv st \<longleftrightarrow> distinct (map fst (items st)) \<and> usage (items st) \<le> quota st"

definition store_map :: "storage \<Rightarrow> string \<Rightarrow> string option" where
  "store_map st = map_of (items st)"

definition empty_storage :: "nat \<Rightarrow> storage" where
  "empty_storage q = \<lparr>items = [], quota = q, available = True\<rparr>"

lemmas storage_ops_defs = getItem_def setItem_def removeItem_def

subsection \<open>Behaviour of each operation\<close>

lemma getItem_result:
  "getItem k st = (if available st then Inr (store_map st k) else Inl SecurityError, st)"
  by (simp add: getItem_def store_map_def)

lemma getItem_read_only [prelude_simps]: "read_only (getItem k)"
  by (simp add: read_only_def getItem_def)

lemma setItem_cases:
  "setItem k v st =
     (if \<not> available st then (Inl SecurityError, st)
      else if quota st < usage (AList.update k v (items st)) then (Inl QuotaExceededError, st)
      else (Inr (), st\<lparr>items := AList.update k v (items st)\<rparr>))"
  by (simp add: setItem_def Let_def)

lemma setItem_error_keeps_state:
  "setItem k v st = (Inl e, st') \<Longrightarrow> st' = st"
  by (auto simp: setItem_cases split: if_splits)

lemma setItem_ok_iff:
  "fst (setItem k v st) = Inr () \<longleftrightarrow>
     available st \<and> usage (AList.update k v (items st)) \<le> quota st"
  by (auto simp: setItem_cases)

lemma setItem_ok:
  "available st \<Longrightarrow> usage (AList.update k v (items st)) \<le> quota st \<Longrightarrow>
   setItem k v st = (Inr (), st\<lparr>items := AList.update k v (items st)\<rparr>)"
  by (simp add: setItem_cases)

lemma setItem_quota:
  "available st \<Longrightarrow> quota st < usage (AList.update k v (items st)) \<Longrightarrow>
   setItem k v st = (Inl QuotaExceededError, st)"
  by (simp add: setItem_cases)

lemma setItem_InrD: "setItem k v st = (Inr u, st') \<Longrightarrow> st' = st\<lparr>items := AList.update k v (items st)\<rparr>"
  by (simp add: setItem_cases split: if_splits)

lemma removeItem_ok:
  "available st \<Longrightarrow> removeItem k st = (Inr (), st\<lparr>items := AList.delete k (items st)\<rparr>)"
  by (simp add: removeItem_def)

lemma storage_ops_keep_config:
  "quota (snd (setItem k v st)) = quota st" "available (snd (setItem k v st)) = available st"
  "quota (snd (removeItem k st)) = quota st" "available (snd (removeItem k st)) = available st"
  by (simp_all add: setItem_cases removeItem_def)

end
