(* ===== verification/Api_Client.thy ===== *)
theory Api_Client
  imports Json Local_Storage
begin

text \<open>
  The HTTP client \<open>api\<close> that both services import from \<open>src/services/api.js\<close>. That
  file is not among the sources, so this theory follows the design document
  (\<open>spec.md\<close>, section 4.2): an axios instance whose request interceptor reads the
  stored token and attaches it as a bearer credential, and which rejects when there is
  no response or its status is outside \<open>2xx\<close>. The server is an input of the model:
  a function from the request sent to what comes back, so that a theorem about a
  service holds for every server behaviour.
\<close>

datatype http_method = GET | POST

record request =
  req_method :: http_method
  req_path :: string
  req_body :: "json option"
  req_auth :: "string option"

datatype http_result = Response nat json | NoResponse

type_synonym server = "request \<Rightarrow> http_result"

text \<open>
  What a service's \<open>catch\<close> receives: an error of the runtime (a property read on
  \<open>null\<close>, a storage failure) or an axios error, whose \<open>error.response\<close> holds the
  status and the body when the server answered.
\<close>

datatype exn = JsError js_error | HttpError "(nat \<times> json) option"

text \<open>\<open>obj.k\<close> inside a service body: a \<open>TypeError\<close> becomes the caught exception.\<close>

definition jget :: "jsval \<Rightarrow> string \<Rightarrow> (exn, 's, jsval) est" where
  "jget v k = elift (map_sum JsError id (js_get v k))"

definition bearer :: "string option \<Rightarrow> string option" where
  "bearer tok = map_option (\<lambda>t. ''Bearer '' @ t) tok"

definition http_outcome :: "http_result \<Rightarrow> exn + json" where
  "http_outcome r = (case r of
      NoResponse \<Rightarrow> Inl (HttpError None)
    | Response status body \<Rightarrow>
        if 200 \<le> status \<and> status < 300 then Inr body else Inl (HttpError (Some (status, body))))"

text \<open>\<open>api.get(path)\<close> and \<open>api.post(path, body)\<close>, returning \<open>response.data\<close>.\<close>

definition api_request :: "server \<Rightarrow> http_method \<Rightarrow> string \<Rightarrow> json option \<Rightarrow> (exn, storage, json) est" where
  "api_request srv m path body =
     ebind (emap_err JsError (getItem ''token'')) (\<lambda>tok.
       elift (http_outcome (srv \<lparr>req_method = m, req_path = path, req_body = body, req_auth = bearer tok\<rparr>)))"

definition api_post :: "server \<Rightarrow> string \<Rightarrow> json \<Rightarrow> (exn, storage, json) est" where
  "api_post srv path body = api_request srv POST path (Some body)"

definition api_get :: "server \<Rightarrow> string \<Rightarrow> (exn, storage, json) est" where
  "api_get srv path = api_request srv GET path None"

text \<open>The request the client sends from a given storage.\<close>

definition sent_request :: "http_method \<Rightarrow> string \<Rightarrow> json option \<Rightarrow> storage \<Rightarrow> request" where
  "sent_request m path body st =
     \<lparr>req_method = m, req_path = path, req_body = body, req_auth = bearer (store_map st ''token'')\<rparr>"

lemma api_request_available:
  "available st \<Longrightarrow>
   api_request srv m path body st = (http_outcome (srv (sent_request m path body st)), st)"
  by (simp add: api_request_def ebind_def emap_err_def getItem_def elift_def sent_request_def store_map_def)

lemma api_request_blocked:
  "\<not> available st \<Longrightarrow> api_request srv m path body st = (Inl (JsError SecurityError), st)"
  by (simp add: api_request_def ebind_def emap_err_def getItem_def)

lemma api_request_read_only [prelude_simps]: "read_only (api_request srv m path body)"
  by (simp add: read_only_def api_request_def ebind_def emap_err_def getItem_def elift_def)

lemma jget_read_only [prelude_simps]: "read_only (jget v k)"
  by (simp add: jget_def read_only_basic)

lemma jget_obj [simp]: "jget (Some (JObj kvs)) k s = (Inr (map_of (rev kvs) k), s)"
  by (simp add: jget_def js_get_def elift_def)

end
