(* ===== verification/Service_Errors.thy ===== *)
theory Service_Errors
  imports Api_Client
begin

text \<open>
  The error contract every network-calling service of \<open>src/services/\<close> follows: its body
  runs inside \<open>try\<close>, and its \<open>catch\<close> rethrows
  \<open>error.response?.data || { message: <fallback> }\<close>, with a fallback message that names
  the operation. A service is a computation over the storage whose thrown value is a
  JSON value: the server's error body when it is truthy, the fallback object otherwise.
\<close>

definition fallback :: "string \<Rightarrow> json" where
  "fallback msg = JObj [(''message'', JStr msg)]"

definition rethrow :: "string \<Rightarrow> exn \<Rightarrow> json" where
  "rethrow msg e = (case e of
      HttpError (Some (status, data)) \<Rightarrow> if truthy data then data else fallback msg
    | _ \<Rightarrow> fallback msg)"

definition service_catch :: "string \<Rightarrow> (exn, storage, json) est \<Rightarrow> (json, storage, json) est" where
  "service_catch msg body = ecatch body (\<lambda>e. ethrow (rethrow msg e))"

lemma service_catch_apply [prelude_simps]:
  "body st = (Inr d, st') \<Longrightarrow> service_catch msg body st = (Inr d, st')"
  "body st = (Inl e, st') \<Longrightarrow> service_catch msg body st = (Inl (rethrow msg e), st')"
  by (simp_all add: service_catch_def ecatch_def ethrow_def)

lemma service_catch_InrD:
  assumes "service_catch msg body s = (Inr d, s')"
  shows "body s = (Inr d, s')"
proof (cases "body s")
  case (Pair r s1)
  with assms show ?thesis by (cases r) (simp_all add: service_catch_def ecatch_def ethrow_def)
qed

lemma service_catch_read_only [prelude_simps]:
  "read_only body \<Longrightarrow> read_only (service_catch msg body)"
  unfolding service_catch_def by (rule read_only_ecatch) (simp_all add: read_only_basic)

text \<open>The thrown value has a \<open>message\<close> unless the server's own truthy body lacks one.\<close>

lemma rethrow_cases:
  "rethrow msg e = fallback msg \<or> (\<exists>status data. e = HttpError (Some (status, data)) \<and> truthy data \<and> rethrow msg e = data)"
  by (auto simp: rethrow_def split: exn.splits option.splits)

subsection \<open>A service around one request\<close>

lemma service_api_request:
  "available st \<Longrightarrow> service_catch msg (api_request srv m path body) st =
     (case http_outcome (srv (sent_request m path body st)) of Inl e \<Rightarrow> Inl (rethrow msg e) | Inr d \<Rightarrow> Inr d, st)"
  by (simp add: api_request_available service_catch_def ecatch_def ethrow_def split: sum.splits)

lemma service_outcome:
  "(case http_outcome r of Inl e \<Rightarrow> Inl (rethrow msg e) | Inr d \<Rightarrow> Inr d) =
     (case r of
        Response s d \<Rightarrow> if 200 \<le> s \<and> s < 300 then Inr d else Inl (if truthy d then d else fallback msg)
      | NoResponse \<Rightarrow> Inl (fallback msg))"
  by (cases r) (simp_all add: http_outcome_def rethrow_def)

lemma service_request_result:
  "available st \<Longrightarrow> service_catch msg (api_request srv m path body) st =
      (case srv (sent_request m path body st) of
         Response s d \<Rightarrow> if 200 \<le> s \<and> s < 300 then Inr d else Inl (if truthy d then d else fallback msg)
       | NoResponse \<Rightarrow> Inl (fallback msg), st)"
  by (simp add: service_api_request service_outcome)

end
