(* ===== verification/Auth_Service.thy ===== *)
theory Auth_Service
  imports Service_Errors
begin

text \<open>
  \<open>src/services/authService.js\<close>: registration and login through the API client,
  the session kept in \<open>localStorage\<close> under \<open>token\<close> and \<open>user\<close>, and its inspection.
  Each exported function is one definition over the storage; the asynchronous ones take
  the server as an input. The session is only touched once the login request has
  resolved: the writes of lines 28 to 31 follow the response.
\<close>

subsection \<open>Operations\<close>

definition registerUser :: "server \<Rightarrow> jsval \<Rightarrow> (json, storage, json) est" where
  "registerUser srv userData = service_catch ''Registration failed''
     (ebind (jget userData ''fullName'') (\<lambda>fullName.
      ebind (jget userData ''mobileNumber'') (\<lambda>mobileNumber.
      ebind (jget userData ''email'') (\<lambda>email.
      ebind (jget userData ''password'') (\<lambda>password.
      api_post srv ''/auth/register''
        (obj_lit [(''fullName'', fullName), (''mobileNumber'', mobileNumber),
                  (''email'', email), (''password'', password)]))))))"

text \<open>Lines 28 to 31: the session is written when the response carries a truthy token.\<close>

definition store_session :: "json \<Rightarrow> jsval \<Rightarrow> (exn, storage, unit) est" where
  "store_session data token =
     (if truthy_val token then
        ebind (emap_err JsError (setItem ''token'' (js_str token))) (\<lambda>_.
        ebind (jget (Some data) ''user'') (\<lambda>user.
        emap_err JsError (setItem ''user'' (js_str (json_stringify user)))))
      else ereturn ())"

definition loginUser :: "server \<Rightarrow> jsval \<Rightarrow> (json, storage, json) est" where
  "loginUser srv credentials = service_catch ''Login failed''
     (ebind (jget credentials ''email'') (\<lambda>email.
      ebind (jget credentials ''password'') (\<lambda>password.
      ebind (api_post srv ''/auth/login'' (obj_lit [(''email'', email), (''password'', password)])) (\<lambda>data.
      ebind (jget (Some data) ''token'') (\<lambda>token.
      ebind (store_session data token) (\<lambda>_.
      ereturn data))))))"

definition logoutUser :: "(js_error, storage, unit) est" where
  "logoutUser = ebind (removeItem ''token'') (\<lambda>_. removeItem ''user'')"

definition getCurrentUser :: "(js_error, storage, json) est" where
  "getCurrentUser = ebind (getItem ''user'') (\<lambda>user.
     case user of
       Some s \<Rightarrow> if s \<noteq> [] then elift (json_parse s) else ereturn JNull
     | None \<Rightarrow> ereturn JNull)"

definition isAuthenticated :: "(js_error, storage, bool) est" where
  "isAuthenticated = ebind (getItem ''token'') (\<lambda>t.
     ereturn (case t of None \<Rightarrow> False | Some s \<Rightarrow> s \<noteq> []))"

text \<open>The request \<open>loginUser\<close> sends (lines 22 to 25) for credentials given as an object.\<close>

definition login_request :: "(string \<times> json) list \<Rightarrow> storage \<Rightarrow> request" where
  "login_request kvs st = sent_request POST ''/auth/login''
     (Some (obj_lit [(''email'', map_of (rev kvs) ''email''), (''password'', map_of (rev kvs) ''password'')])) st"

text \<open>The properties \<open>registerUser\<close> copies into the request body (lines 8 to 11).\<close>

definition register_fields :: "string list" where
  "register_fields = [''fullName'', ''mobileNumber'', ''email'', ''password'']"

subsection \<open>The session as the storage holds it\<close>

text \<open>
  A session is present when the \<open>token\<close> entry is a non-empty string (the truthiness
  test of line 53). The design document asks that \<open>token\<close> and \<open>user\<close> be set and
  cleared together: \<open>session_paired\<close>.
\<close>

definition token_present :: "storage \<Rightarrow> bool" where
  "token_present st \<longleftrightarrow> (case store_map st ''token'' of None \<Rightarrow> False | Some t \<Rightarrow> t \<noteq> [])"

definition session_paired :: "storage \<Rightarrow> bool" where
  "session_paired st \<longleftrightarrow> (store_map st ''token'' = None \<longleftrightarrow> store_map st ''user'' = None)"

subsection \<open>Reading the session\<close>

lemma isAuthenticated_result:
  "isAuthenticated st = (if available st then Inr (token_present st) else Inl SecurityError, st)"
  by (simp add: isAuthenticated_def ebind_def getItem_def ereturn_def token_present_def store_map_def
           split: option.splits)

lemma isAuthenticated_items:
  "available st \<Longrightarrow> fst (isAuthenticated st) = Inr (case map_of (items st) ''token'' of None \<Rightarrow> False | Some t \<Rightarrow> t \<noteq> [])"
  by (simp add: isAuthenticated_result token_present_def store_map_def)

lemma getCurrentUser_items:
  "available st \<Longrightarrow> fst (getCurrentUser st) =
     (case map_of (items st) ''user'' of None \<Rightarrow> Inr JNull | Some s \<Rightarrow> if s \<noteq> [] then json_parse s else Inr JNull)"
  by (simp add: getCurrentUser_def ebind_def getItem_def elift_def ereturn_def split: option.splits)

lemma session_reads_read_only [prelude_simps]: "read_only isAuthenticated" "read_only getCurrentUser"
  by (simp_all add: read_only_def isAuthenticated_def getCurrentUser_def ebind_def getItem_def
      ereturn_def elift_def split: option.splits)

subsection \<open>Writing the session\<close>

lemma store_session_falsy: "\<not> truthy_val token \<Longrightarrow> store_session data token st = (Inr (), st)"
  by (simp add: store_session_def ereturn_def)

lemma store_session_written:
  assumes "available st" "truthy_val token"
    and q1: "usage (AList.update ''token'' (js_str token) (items st)) \<le> quota st"
    and q2: "usage (AList.update ''user'' (js_str (json_stringify (map_of (rev dkvs) ''user'')))
               (AList.update ''token'' (js_str token) (items st))) \<le> quota st"
  shows "store_session (JObj dkvs) token st =
     (Inr (), st\<lparr>items := AList.update ''user'' (js_str (json_stringify (map_of (rev dkvs) ''user'')))
                     (AList.update ''token'' (js_str token) (items st))\<rparr>)"
proof -
  let ?st1 = "st\<lparr>items := AList.update ''token'' (js_str token) (items st)\<rparr>"
  have s1: "setItem ''token'' (js_str token) st = (Inr (), ?st1)"
    using assms(1) q1 by (rule setItem_ok)
  have s2: "setItem ''user'' (js_str (json_stringify (map_of (rev dkvs) ''user''))) ?st1
      = (Inr (), ?st1\<lparr>items := AList.update ''user'' (js_str (json_stringify (map_of (rev dkvs) ''user''))) (items ?st1)\<rparr>)"
    using assms(1) q2 by (intro setItem_ok) simp_all
  show ?thesis using assms(2) s1 s2 by (simp add: store_session_def ebind_def prelude_simps)
qed

text \<open>A successful session write either writes nothing or leaves both keys set.\<close>

lemma store_session_InrD:
  assumes "store_session data token st = (Inr u, st')"
  shows "st' = st \<or> (store_map st' ''token'' \<noteq> None \<and> store_map st' ''user'' \<noteq> None)"
proof (cases "truthy_val token")
  case False
  with assms show ?thesis by (simp add: store_session_def ereturn_def)
next
  case True
  with assms have "ebind (emap_err JsError (setItem ''token'' (js_str token))) (\<lambda>_.
        ebind (jget (Some data) ''user'') (\<lambda>user.
        emap_err JsError (setItem ''user'' (js_str (json_stringify user))))) st = (Inr u, st')"
    by (simp add: store_session_def)
  then obtain a s1 where e1: "emap_err JsError (setItem ''token'' (js_str token)) st = (Inr a, s1)"
    and e2: "ebind (jget (Some data) ''user'') (\<lambda>user. emap_err JsError (setItem ''user'' (js_str (json_stringify user)))) s1 = (Inr u, st')"
    by (rule ebind_InrD)
  from e2 obtain user where "emap_err JsError (setItem ''user'' (js_str (json_stringify user))) s1 = (Inr u, st')"
    by (rule ebind_read_only_InrD) (rule jget_read_only)
  then have st': "st' = s1\<lparr>items := AList.update ''user'' (js_str (json_stringify user)) (items s1)\<rparr>"
    by (blast dest: emap_err_InrD setItem_InrD)
  from e1 have "s1 = st\<lparr>items := AList.update ''token'' (js_str token) (items st)\<rparr>"
    by (blast dest: emap_err_InrD setItem_InrD)
  with st' show ?thesis by (simp add: store_map_def prelude_simps)
qed

subsection \<open>loginUser, path by path\<close>

text \<open>With readable storage and object credentials, the request is sent and its outcome decides.\<close>

lemma loginUser_obj:
  assumes "available st"
  shows "loginUser srv (Some (JObj kvs)) st =
    (case http_outcome (srv (login_request kvs st)) of
       Inl e \<Rightarrow> (Inl (rethrow ''Login failed'' e), st)
     | Inr data \<Rightarrow> service_catch ''Login failed''
         (ebind (jget (Some data) ''token'') (\<lambda>token. ebind (store_session data token) (\<lambda>_. ereturn data))) st)"
  using assms
  by (simp add: loginUser_def api_post_def ebind_def api_request_available login_request_def
      service_catch_def ecatch_def ethrow_def split: sum.splits)

text \<open>Whatever the credentials, a resolved login has done nothing to the storage but the session write.\<close>

lemma loginUser_InrD:
  assumes "loginUser srv c st = (Inr d, st')"
  obtains data token where "store_session data token st = (Inr (), st')"
proof -
  from assms have "(ebind (jget c ''email'') (\<lambda>email.
      ebind (jget c ''password'') (\<lambda>password.
      ebind (api_post srv ''/auth/login'' (obj_lit [(''email'', email), (''password'', password)])) (\<lambda>data.
      ebind (jget (Some data) ''token'') (\<lambda>token.
      ebind (store_session data token) (\<lambda>_.
      ereturn data)))))) st = (Inr d, st')"
    unfolding loginUser_def by (rule service_catch_InrD)
  then obtain email where "ebind (jget c ''password'') (\<lambda>password.
      ebind (api_post srv ''/auth/login'' (obj_lit [(''email'', email), (''password'', password)])) (\<lambda>data.
      ebind (jget (Some data) ''token'') (\<lambda>token.
      ebind (store_session data token) (\<lambda>_.
      ereturn data)))) st = (Inr d, st')"
    by (rule ebind_read_only_InrD) (rule jget_read_only)
  then obtain password where "ebind (api_post srv ''/auth/login'' (obj_lit [(''email'', email), (''password'', password)])) (\<lambda>data.
      ebind (jget (Some data) ''token'') (\<lambda>token.
      ebind (store_session data token) (\<lambda>_.
      ereturn data))) st = (Inr d, st')"
    by (rule ebind_read_only_InrD) (rule jget_read_only)
  then obtain data where "ebind (jget (Some data) ''token'') (\<lambda>token.
      ebind (store_session data token) (\<lambda>_. ereturn data)) st = (Inr d, st')"
    by (rule ebind_read_only_InrD) (simp add: api_post_def api_request_read_only)
  then obtain token where "ebind (store_session data token) (\<lambda>_. ereturn data) st = (Inr d, st')"
    by (rule ebind_read_only_InrD) (rule jget_read_only)
  then obtain u where "store_session data token st = (Inr u, st')"
    by (rule ebind_InrD) (simp add: ereturn_def)
  then show ?thesis using that by simp
qed

subsection \<open>logoutUser\<close>

lemma logoutUser_available:
  "available st \<Longrightarrow> logoutUser st = (Inr (), st\<lparr>items := AList.delete ''user'' (AList.delete ''token'' (items st))\<rparr>)"
  by (simp add: logoutUser_def ebind_def removeItem_def)

lemma logoutUser_blocked: "\<not> available st \<Longrightarrow> logoutUser st = (Inl SecurityError, st)"
  by (simp add: logoutUser_def ebind_def removeItem_def)

subsection \<open>Properties of the authentication service\<close>

text \<open>
  C3. Logging out clears the session: with readable storage \<open>logoutUser\<close> succeeds,
  and afterwards \<open>isAuthenticated()\<close> is false and \<open>getCurrentUser()\<close> is \<open>null\<close>,
  whatever the storage held before.
\<close>

theorem logoutUser_clears_session:
  assumes "available st"
  shows "fst (logoutUser st) = Inr ()
       \<and> fst (isAuthenticated (snd (logoutUser st))) = Inr False
       \<and> fst (getCurrentUser (snd (logoutUser st))) = Inr JNull"
  using assms by (simp add: logoutUser_available isAuthenticated_items getCurrentUser_items prelude_simps)

theorem logoutUser_clears_session_witness:
  "fst (logoutUser \<lparr>items = [(''token'', ''t1''), (''user'', ''{}'')], quota = 100, available = True\<rparr>) = Inr ()
   \<and> fst (isAuthenticated (snd (logoutUser \<lparr>items = [(''token'', ''t1''), (''user'', ''{}'')], quota = 100, available = True\<rparr>))) = Inr False
   \<and> fst (getCurrentUser (snd (logoutUser \<lparr>items = [(''token'', ''t1''), (''user'', ''{}'')], quota = 100, available = True\<rparr>))) = Inr JNull"
  by (rule logoutUser_clears_session) simp

text \<open>
  C4. A login the server answers with a status outside \<open>2xx\<close> rejects with the server's
  body when it is truthy (so a body \<open>{message: X}\<close> gives the message \<open>X\<close>) and with
  \<open>{message: 'Login failed'}\<close> otherwise, and leaves the storage unchanged.
\<close>

theorem loginUser_rejects_server_error:
  assumes "available st" "srv (login_request kvs st) = Response status body" "\<not> (200 \<le> status \<and> status < 300)"
  shows "loginUser srv (Some (JObj kvs)) st = (Inl (if truthy body then body else fallback ''Login failed''), st)"
proof -
  have "http_outcome (Response status body) = Inl (HttpError (Some (status, body)))"
    using assms(3) by (simp add: http_outcome_def)
  with assms(1,2) show ?thesis by (simp add: loginUser_obj rethrow_def)
qed

theorem loginUser_rejects_server_error_witness:
  "loginUser (\<lambda>r. Response 401 (JObj [(''message'', JStr ''Invalid credentials'')]))
      (Some (JObj [(''email'', JStr ''a@b.com''), (''password'', JStr ''x'')])) (empty_storage 100)
   = (Inl (JObj [(''message'', JStr ''Invalid credentials'')]), empty_storage 100)"
  using loginUser_rejects_server_error [of "empty_storage 100" "\<lambda>r. Response 401 (JObj [(''message'', JStr ''Invalid credentials'')])"
      "[(''email'', JStr ''a@b.com''), (''password'', JStr ''x'')]" 401 "JObj [(''message'', JStr ''Invalid credentials'')]"]
  by (simp add: empty_storage_def)

text \<open>
  C5. A login that gets no response (a transport failure) rejects with exactly
  \<open>{message: 'Login failed'}\<close> and leaves the storage unchanged.
\<close>

theorem loginUser_no_response:
  assumes "available st" "srv (login_request kvs st) = NoResponse"
  shows "loginUser srv (Some (JObj kvs)) st = (Inl (fallback ''Login failed''), st)"
  using assms by (simp add: loginUser_obj http_outcome_def rethrow_def)

theorem loginUser_no_response_witness:
  "loginUser (\<lambda>r. NoResponse) (Some (JObj [(''email'', JStr ''a@b.com''), (''password'', JStr ''x'')])) (empty_storage 100)
   = (Inl (JObj [(''message'', JStr ''Login failed'')]), empty_storage 100)"
  using loginUser_no_response [of "empty_storage 100" "\<lambda>r. NoResponse" "[(''email'', JStr ''a@b.com''), (''password'', JStr ''x'')]"]
  by (simp add: empty_storage_def fallback_def)

text \<open>
  C6. A successful login response whose \<open>token\<close> is absent or falsy resolves with the
  response body and writes nothing: no partial session is created.
\<close>

theorem loginUser_no_token_keeps_storage:
  assumes "available st" "srv (login_request kvs st) = Response status data" "200 \<le> status" "status < 300"
    and "js_get (Some data) ''token'' = Inr tok" "\<not> truthy_val tok"
  shows "loginUser srv (Some (JObj kvs)) st = (Inr data, st)"
  using assms by (simp add: loginUser_obj http_outcome_def jget_def ebind_def elift_def
      store_session_falsy ereturn_def service_catch_def ecatch_def)

theorem loginUser_no_token_keeps_storage_witness:
  "loginUser (\<lambda>r. Response 200 (JObj [(''user'', JObj [(''fullName'', JStr ''A'')])]))
      (Some (JObj [(''email'', JStr ''a@b.com''), (''password'', JStr ''x'')])) (empty_storage 100)
   = (Inr (JObj [(''user'', JObj [(''fullName'', JStr ''A'')])]), empty_storage 100)"
  by (rule loginUser_no_token_keeps_storage [where status = 200 and tok = None])
     (simp_all add: empty_storage_def js_get_def truthy_val_def)

text \<open>
  C7. A login that resolves keeps \<open>token\<close> and \<open>user\<close> paired: if before the call
  both or neither were stored, the same holds after it, for any credentials and any
  server.
\<close>

theorem loginUser_keeps_session_paired:
  assumes "session_paired st" "loginUser srv c st = (Inr d, st')"
  shows "session_paired st'"
proof -
  obtain data token where "store_session data token st = (Inr (), st')"
    using assms(2) by (rule loginUser_InrD)
  then have "st' = st \<or> (store_map st' ''token'' \<noteq> None \<and> store_map st' ''user'' \<noteq> None)"
    by (rule store_session_InrD)
  with assms(1) show ?thesis by (auto simp: session_paired_def)
qed

theorem loginUser_keeps_session_paired_witness:
  "session_paired \<lparr>items = [(''token'', ''t1''), (''user'', ''null'')], quota = 100, available = True\<rparr>"
proof -
  have "session_paired (empty_storage 100)"
    by (simp add: session_paired_def store_map_def empty_storage_def)
  moreover have "loginUser (\<lambda>r. Response 200 (JObj [(''token'', JStr ''t1''), (''user'', JNull)]))
      (Some (JObj [(''email'', JStr ''a@b.com'')])) (empty_storage 100)
    = (Inr (JObj [(''token'', JStr ''t1''), (''user'', JNull)]),
       \<lparr>items = [(''token'', ''t1''), (''user'', ''null'')], quota = 100, available = True\<rparr>)"
    by code_simp
  ultimately show ?thesis by (rule loginUser_keeps_session_paired)
qed

text \<open>
  C8. The session write is not atomic: when the \<open>token\<close> write fits the storage's
  quota and the \<open>user\<close> write does not, \<open>loginUser\<close> rejects with
  \<open>{message: 'Login failed'}\<close> and yet leaves the token stored, so the caller is told
  the login failed while \<open>isAuthenticated()\<close> now holds.
\<close>

theorem loginUser_partial_write:
  assumes avail: "available st"
    and resp: "srv (login_request kvs st) = Response status (JObj dkvs)" "200 \<le> status" "status < 300"
    and tok: "map_of (rev dkvs) ''token'' = Some tok" "truthy tok"
    and q1: "usage (AList.update ''token'' (js_to_string tok) (items st)) \<le> quota st"
    and q2: "quota st < usage (AList.update ''user'' (js_str (json_stringify (map_of (rev dkvs) ''user'')))
                           (AList.update ''token'' (js_to_string tok) (items st)))"
  shows "loginUser srv (Some (JObj kvs)) st =
           (Inl (fallback ''Login failed''), st\<lparr>items := AList.update ''token'' (js_to_string tok) (items st)\<rparr>)"
proof -
  let ?st1 = "st\<lparr>items := AList.update ''token'' (js_to_string tok) (items st)\<rparr>"
  have s1: "setItem ''token'' (js_to_string tok) st = (Inr (), ?st1)"
    using avail q1 by (rule setItem_ok)
  have s2: "setItem ''user'' (js_str (json_stringify (map_of (rev dkvs) ''user''))) ?st1 = (Inl QuotaExceededError, ?st1)"
    using avail q2 by (intro setItem_quota) simp_all
  have "store_session (JObj dkvs) (Some tok) st = (Inl (JsError QuotaExceededError), ?st1)"
    using tok s1 s2 by (simp add: store_session_def truthy_val_def js_str_def ebind_def prelude_simps)
  then show ?thesis using avail resp tok
    by (simp add: loginUser_obj http_outcome_def ebind_def service_catch_def ecatch_def ethrow_def rethrow_def)
qed

theorem loginUser_partial_write_witness:
  "loginUser (\<lambda>r. Response 200 (JObj [(''token'', JStr ''t1''), (''user'', JObj [(''fullName'', JStr ''A'')])]))
      (Some (JObj [(''email'', JStr ''a@b.com''), (''password'', JStr ''x'')])) (empty_storage 10)
   = (Inl (JObj [(''message'', JStr ''Login failed'')]), (empty_storage 10)\<lparr>items := [(''token'', ''t1'')]\<rparr>)
   \<and> fst (isAuthenticated ((empty_storage 10)\<lparr>items := [(''token'', ''t1'')]\<rparr>)) = Inr True"
proof -
  have "loginUser (\<lambda>r. Response 200 (JObj [(''token'', JStr ''t1''), (''user'', JObj [(''fullName'', JStr ''A'')])]))
      (Some (JObj [(''email'', JStr ''a@b.com''), (''password'', JStr ''x'')])) (empty_storage 10)
   = (Inl (fallback ''Login failed''), (empty_storage 10)\<lparr>items := AList.update ''token'' (js_to_string (JStr ''t1'')) (items (empty_storage 10))\<rparr>)"
    by (rule loginUser_partial_write [where status = 200 and dkvs = "[(''token'', JStr ''t1''), (''user'', JObj [(''fullName'', JStr ''A'')])]"])
       (simp_all add: empty_storage_def usage_def weight_def entry_size_def js_str_def json_stringify_def
          quote_str_def esc_char_def)
  then show ?thesis
    by (simp add: empty_storage_def fallback_def isAuthenticated_items)
qed

subsection \<open>A login the server accepts\<close>

lemma loginUser_writes_session:
  assumes avail: "available st"
    and resp: "srv (login_request kvs st) = Response status (JObj dkvs)" "200 \<le> status" "status < 300"
    and tok: "map_of (rev dkvs) ''token'' = Some tok" "truthy tok"
    and q1: "usage (AList.update ''token'' (js_to_string tok) (items st)) \<le> quota st"
    and q2: "usage (AList.update ''user'' (js_str (json_stringify (map_of (rev dkvs) ''user'')))
               (AList.update ''token'' (js_to_string tok) (items st))) \<le> quota st"
  shows "loginUser srv (Some (JObj kvs)) st =
     (Inr (JObj dkvs), st\<lparr>items := AList.update ''user'' (js_str (json_stringify (map_of (rev dkvs) ''user'')))
                                (AList.update ''token'' (js_to_string tok) (items st))\<rparr>)"
proof -
  have "store_session (JObj dkvs) (Some tok) st =
     (Inr (), st\<lparr>items := AList.update ''user'' (js_str (json_stringify (map_of (rev dkvs) ''user'')))
                                (AList.update ''token'' (js_to_string tok) (items st))\<rparr>)"
    using store_session_written [of st "Some tok" dkvs] avail tok q1 q2 by (simp add: truthy_val_def js_str_def)
  with avail resp tok show ?thesis
    by (simp add: loginUser_obj http_outcome_def ebind_def ereturn_def service_catch_def ecatch_def)
qed

subsection \<open>Registration, missing arguments and the stored token\<close>

text \<open>
  C22. For user data given as an object on readable storage, \<open>registerUser\<close> sends one
  \<open>POST /auth/register\<close> whose body holds exactly the four registration fields the
  object defines, carrying the stored token if any; it resolves with the body of a
  \<open>2xx\<close> response, otherwise throws the truthy error body or \<open>Registration failed\<close>,
  and it never writes the storage.
\<close>

theorem registerUser_sends_fields:
  assumes "available st"
  shows "registerUser srv (Some (JObj kvs)) st =
     (case srv (sent_request POST ''/auth/register''
              (Some (obj_lit (map (\<lambda>k. (k, map_of (rev kvs) k)) register_fields))) st) of
        Response s d \<Rightarrow> if 200 \<le> s \<and> s < 300 then Inr d
                        else Inl (if truthy d then d else fallback ''Registration failed'')
      | NoResponse \<Rightarrow> Inl (fallback ''Registration failed''), st)"
  using assms
  by (simp add: registerUser_def api_post_def register_fields_def ebind_def service_request_result)

theorem registerUser_sends_fields_witness:
  "registerUser (\<lambda>r. case req_body r of Some b \<Rightarrow> Response 201 b | None \<Rightarrow> Response 400 JNull)
      (Some (JObj [(''fullName'', JStr ''A''), (''role'', JStr ''admin''), (''password'', JStr ''pw'')]))
      \<lparr>items = [], quota = 100, available = True\<rparr>
   = (Inr (JObj [(''fullName'', JStr ''A''), (''password'', JStr ''pw'')]), \<lparr>items = [], quota = 100, available = True\<rparr>)"
  using registerUser_sends_fields [of "\<lparr>items = [], quota = 100, available = True\<rparr>"]
  by (simp add: register_fields_def obj_lit_def sent_request_def)

text \<open>
  C23. Called with \<open>undefined\<close> or \<open>null\<close> instead of an object, \<open>loginUser\<close> and
  \<open>registerUser\<close> reject with their fallback messages: the \<open>TypeError\<close> of the first
  property read is caught like a network failure, no request is sent and the storage
  is unchanged.
\<close>

theorem auth_missing_argument:
  "loginUser srv None st = (Inl (fallback ''Login failed''), st)
   \<and> loginUser srv (Some JNull) st = (Inl (fallback ''Login failed''), st)
   \<and> registerUser srv None st = (Inl (fallback ''Registration failed''), st)
   \<and> registerUser srv (Some JNull) st = (Inl (fallback ''Registration failed''), st)"
  by (simp add: loginUser_def registerUser_def jget_def js_get_def elift_def ebind_def service_catch_def
      ecatch_def ethrow_def rethrow_def)

text \<open>
  C24. What \<open>loginUser\<close> stores under \<open>token\<close> is \<open>String(token)\<close> for whatever
  truthy value the response carries, and the session then counts as authenticated
  exactly when that text is non-empty: a truthy token such as \<open>[]\<close> resolves the login
  and leaves the user unauthenticated.
\<close>

theorem loginUser_stores_token_string:
  assumes "available st"
    and "srv (login_request kvs st) = Response status (JObj dkvs)" "200 \<le> status" "status < 300"
    and "map_of (rev dkvs) ''token'' = Some tok" "truthy tok"
    and "usage (AList.update ''token'' (js_to_string tok) (items st)) \<le> quota st"
    and "usage (AList.update ''user'' (js_str (json_stringify (map_of (rev dkvs) ''user'')))
               (AList.update ''token'' (js_to_string tok) (items st))) \<le> quota st"
  shows "fst (loginUser srv (Some (JObj kvs)) st) = Inr (JObj dkvs)
       \<and> store_map (snd (loginUser srv (Some (JObj kvs)) st)) ''token'' = Some (js_to_string tok)
       \<and> fst (isAuthenticated (snd (loginUser srv (Some (JObj kvs)) st))) = Inr (js_to_string tok \<noteq> [])"
  using loginUser_writes_session [where srv = srv and kvs = kvs and status = status and dkvs = dkvs and tok = tok,
      OF assms] assms(1)
  by (simp add: isAuthenticated_items store_map_def prelude_simps)

theorem loginUser_stores_token_string_witness:
  "fst (loginUser (\<lambda>r. Response 200 (JObj [(''token'', JArr [])])) (Some (JObj [])) (empty_storage 100))
     = Inr (JObj [(''token'', JArr [])])
   \<and> store_map (snd (loginUser (\<lambda>r. Response 200 (JObj [(''token'', JArr [])])) (Some (JObj [])) (empty_storage 100))) ''token''
     = Some (js_to_string (JArr []))
   \<and> fst (isAuthenticated (snd (loginUser (\<lambda>r. Response 200 (JObj [(''token'', JArr [])])) (Some (JObj [])) (empty_storage 100))))
     = Inr (js_to_string (JArr []) \<noteq> [])"
  by (rule loginUser_stores_token_string [where status = 200])
     (simp add: empty_storage_def | code_simp)+

end
