(* ===== verification/Protected_Route.thy ===== *)
theory Protected_Route
  imports Auth_Service
begin

text \<open>
  \<open>src/components/ProtectedRoute.jsx\<close>: the route guard. On every render it asks
  \<open>isAuthenticated()\<close> and returns either its children or a \<open><Navigate>\<close> element to
  \<open>/login\<close> that replaces the current history entry. The element is a value of
  \<open>'c element\<close>; the guard is a read of the storage and nothing else.
\<close>

datatype 'c element =
    Navigate string bool  \<comment> \<open>\<open><Navigate to=... replace/>\<close>: target and the \<open>replace\<close> flag\<close>
  | Children 'c

definition ProtectedRoute :: "'c \<Rightarrow> (js_error, storage, 'c element) est" where
  "ProtectedRoute children = ebind isAuthenticated (\<lambda>auth.
     if \<not> auth then ereturn (Navigate ''/login'' True) else ereturn (Children children))"

subsection \<open>The guard's contract\<close>

text \<open>
  The design document's guard (section 4.4) is a function of the session's presence to
  \<open>ALLOW\<close> or \<open>REDIRECT\<close> to the login entry point.
\<close>

datatype decision = ALLOW | REDIRECT string

definition guard_spec :: "bool \<Rightarrow> decision" where
  "guard_spec present = (if present then ALLOW else REDIRECT ''/login'')"

definition decision_of :: "'c element \<Rightarrow> decision" where
  "decision_of el = (case el of Navigate target _ \<Rightarrow> REDIRECT target | Children _ \<Rightarrow> ALLOW)"

lemma ProtectedRoute_result:
  "ProtectedRoute c st =
     (if \<not> available st then Inl SecurityError
      else if token_present st then Inr (Children c) else Inr (Navigate ''/login'' True), st)"
  by (simp add: ProtectedRoute_def ebind_def isAuthenticated_result ereturn_def)

text \<open>
  C1. The guard refines its contract: wherever the storage can be read, the element
  \<open>ProtectedRoute\<close> renders is the contract's decision for the presence of a non-empty
  stored token (the children exactly when it is present, a redirect to \<open>/login\<close>
  otherwise), and rendering leaves the storage unchanged.
\<close>

theorem ProtectedRoute_refines_guard:
  assumes "available st"
  shows "fst (ProtectedRoute c st) = Inr (if token_present st then Children c else Navigate ''/login'' True)
       \<and> map_sum id decision_of (fst (ProtectedRoute c st)) = Inr (guard_spec (token_present st))
       \<and> snd (ProtectedRoute c st) = st"
  using assms by (simp add: ProtectedRoute_result decision_of_def guard_spec_def)

theorem ProtectedRoute_refines_guard_witness:
  "fst (ProtectedRoute (0::nat) (empty_storage 100)) = Inr (Navigate ''/login'' True)
   \<and> map_sum id decision_of (fst (ProtectedRoute (0::nat) (empty_storage 100))) = Inr (REDIRECT ''/login'')"
proof -
  have "available (empty_storage 100)" by (simp add: empty_storage_def)
  moreover have "\<not> token_present (empty_storage 100)"
    by (simp add: token_present_def store_map_def empty_storage_def)
  ultimately show ?thesis
    using ProtectedRoute_refines_guard [of "empty_storage 100" "0::nat"] by (simp add: guard_spec_def decision_of_def)
qed

end
