(* ===== verification/App_Routes.thy ===== *)
theory App_Routes
  imports Protected_Route
begin

text \<open>
  \<open>src/App.jsx\<close>: the route table. A location's pathname selects the first route whose
  pattern matches it, as React Router's \<open><Routes>\<close> does for this table: a pattern matches
  case-insensitively (ASCII letters; the patterns are ASCII) and allows trailing slashes.
  Only \<open>/loan-form\<close> is wrapped in \<open>ProtectedRoute\<close>; the other pages render without
  reading the storage. A path no route matches renders nothing.
\<close>

datatype page = LoginPage | RegisterPage | LoanFormPage

datatype route_element = Elem page | Guarded page

datatype view = Page page | Redirect string bool | NoMatch

definition routes :: "(string \<times> route_element) list" where
  "routes =
     [(''/'', Elem LoginPage),
      (''/login'', Elem LoginPage),
      (''/register'', Elem RegisterPage),
      (''/loan-form'', Guarded LoanFormPage)]"

definition ascii_lower :: "char \<Rightarrow> char" where
  "ascii_lower c = (let n = (of_char c :: nat) in if 65 \<le> n \<and> n \<le> 90 then char_of (n + 32) else c)"

definition strip_slashes :: "string \<Rightarrow> string" where
  "strip_slashes p = rev (dropWhile (\<lambda>c. c = CHR ''/'') (rev p))"

text \<open>\<open>matchPath\<close> for a static pattern: \<open>^pattern\/*$\<close> with the \<open>i\<close> flag.\<close>

definition route_matches :: "string \<Rightarrow> string \<Rightarrow> bool" where
  "route_matches pat path \<longleftrightarrow> map ascii_lower (strip_slashes path) = strip_slashes pat"

definition render_element :: "route_element \<Rightarrow> (js_error, storage, view) est" where
  "render_element el = (case el of
      Elem pg \<Rightarrow> ereturn (Page pg)
    | Guarded pg \<Rightarrow> ebind (ProtectedRoute pg) (\<lambda>e.
        ereturn (case e of Navigate target replace \<Rightarrow> Redirect target replace | Children c \<Rightarrow> Page c)))"

definition App :: "string \<Rightarrow> (js_error, storage, view) est" where
  "App path = (case find (\<lambda>r. route_matches (fst r) path) routes of
      None \<Rightarrow> ereturn NoMatch
    | Some r \<Rightarrow> render_element (snd r))"

subsection \<open>Matching\<close>

text \<open>A path the guarded pattern matches is matched by no other pattern of the table.\<close>

lemma loan_form_exclusive:
  assumes "route_matches ''/loan-form'' path"
  shows "find (\<lambda>r. route_matches (fst r) path) routes = Some (''/loan-form'', Guarded LoanFormPage)"
  using assms by (simp add: routes_def strip_slashes_def route_matches_def)

lemma App_guarded:
  assumes "route_matches ''/loan-form'' path"
  shows "App path st =
     (if \<not> available st then Inl SecurityError
      else if token_present st then Inr (Page LoanFormPage) else Inr (Redirect ''/login'' True), st)"
  using assms by (simp add: App_def loan_form_exclusive render_element_def ProtectedRoute_result ebind_def ereturn_def)

lemma App_login [simp]: "App ''/login'' st = (Inr (Page LoginPage), st)"
  by (simp add: App_def routes_def route_matches_def strip_slashes_def render_element_def ereturn_def
      ascii_lower_def)

text \<open>Only the guarded route renders the loan form.\<close>

lemma App_LoanForm_guarded:
  assumes "fst (App path st) = Inr (Page LoanFormPage)"
  shows "route_matches ''/loan-form'' path \<and> available st \<and> token_present st"
proof (cases "find (\<lambda>r. route_matches (fst r) path) routes")
  case None
  with assms show ?thesis by (simp add: App_def ereturn_def)
next
  case (Some r)
  then have r: "r \<in> set routes" "route_matches (fst r) path"
    by (auto simp: find_Some_iff)
  show ?thesis
  proof (cases "snd r")
    case (Elem pg)
    with Some assms r show ?thesis by (auto simp: App_def render_element_def ereturn_def routes_def)
  next
    case (Guarded pg)
    with r have "r = (''/loan-form'', Guarded LoanFormPage)" by (auto simp: routes_def)
    with Some assms r show ?thesis
      by (auto simp: App_def render_element_def ProtectedRoute_result ebind_def ereturn_def split: if_splits)
  qed
qed

lemma App_read_only [prelude_simps]: "read_only (App path)"
  by (auto simp: read_only_def App_def render_element_def ProtectedRoute_result ebind_def ereturn_def
      split: option.splits route_element.splits element.splits)

end
