(* ===== verification/Navigation.thy ===== *)
theory Navigation
  imports App_Routes
begin

text \<open>
  The browser session around \<open>src/App.jsx\<close>: a history of locations with a current
  entry, the storage, and the log of what each render showed. Navigating (a link, the
  address bar, back, forward) moves in the history and renders the route of the current
  entry; a \<open><Navigate replace>\<close> the render returns replaces the current entry and the
  target is rendered in turn (the guard's target \<open>/login\<close> renders without redirecting,
  so one follow-up render is all a navigation does). The pages call the authentication
  service, which changes the storage without rendering anything: React re-renders the
  routes on the next navigation, not on a storage write. The steps form a
  deterministic machine over an event type; the reachable states are an inductive set.
\<close>

record nav =
  entries :: "string list"
  pos :: nat
  store :: storage
  log :: "(string \<times> storage \<times> (js_error + view)) list"

datatype nav_event =
    Push string
  | Back
  | Forward
  | Login server jsval
  | Register server jsval
  | Logout

definition current :: "nav \<Rightarrow> string" where
  "current n = entries n ! pos n"

text \<open>A render of the current entry, then of the target of a redirect it returned.\<close>

definition render_once :: "nav \<Rightarrow> nav" where
  "render_once n = n\<lparr>log := (current n, store n, fst (App (current n) (store n))) # log n\<rparr>"

definition follow :: "string \<Rightarrow> bool \<Rightarrow> nav \<Rightarrow> nav" where
  "follow target replace n =
     (if replace then n\<lparr>entries := (entries n)[pos n := target]\<rparr>
      else n\<lparr>entries := take (Suc (pos n)) (entries n) @ [target], pos := Suc (pos n)\<rparr>)"

definition render :: "nav \<Rightarrow> nav" where
  "render n = (let n1 = render_once n in
     case fst (App (current n) (store n)) of
       Inr (Redirect target replace) \<Rightarrow> render_once (follow target replace n1)
     | _ \<Rightarrow> n1)"

fun nav_step :: "nav_event \<Rightarrow> nav \<Rightarrow> nav" where
  "nav_step (Push p) n = render (n\<lparr>entries := take (Suc (pos n)) (entries n) @ [p], pos := Suc (pos n)\<rparr>)"
| "nav_step Back n = (if pos n = 0 then n else render (n\<lparr>pos := pos n - 1\<rparr>))"
| "nav_step Forward n = (if Suc (pos n) < length (entries n) then render (n\<lparr>pos := Suc (pos n)\<rparr>) else n)"
| "nav_step (Login srv c) n = n\<lparr>store := snd (loginUser srv c (store n))\<rparr>"
| "nav_step (Register srv c) n = n\<lparr>store := snd (registerUser srv c (store n))\<rparr>"
| "nav_step Logout n = n\<lparr>store := snd (logoutUser (store n))\<rparr>"

definition nav_init :: "string \<Rightarrow> storage \<Rightarrow> nav" where
  "nav_init path st = render \<lparr>entries = [path], pos = 0, store = st, log = []\<rparr>"

inductive reachable_nav :: "nav \<Rightarrow> bool" where
  init: "reachable_nav (nav_init path st)"
| step: "reachable_nav n \<Longrightarrow> reachable_nav (nav_step e n)"

text \<open>The invariants: the current entry is in the history, and the loan form has only been shown with a session present.\<close>

definition history_ok :: "nav \<Rightarrow> bool" where
  "history_ok n \<longleftrightarrow> pos n < length (entries n)"

definition renders_guarded :: "nav \<Rightarrow> bool" where
  "renders_guarded n \<longleftrightarrow> list_all (\<lambda>(p, st, r). r = Inr (Page LoanFormPage) \<longrightarrow> token_present st) (log n)"

text \<open>
  The router in general: a render that returns \<open><Navigate>\<close> moves the history and
  renders again, for as long as renders redirect; with fuel, as the reference for
  \<open>render\<close>.
\<close>

fun render_loop :: "nat \<Rightarrow> nav \<Rightarrow> nav" where
  "render_loop 0 n = n"
| "render_loop (Suc k) n =
     (case fst (App (current n) (store n)) of
        Inr (Redirect target replace) \<Rightarrow> render_loop k (follow target replace (render_once n))
      | _ \<Rightarrow> render_once n)"

subsection \<open>Steps\<close>

lemma render_once_simps [simp]:
  "entries (render_once n) = entries n" "pos (render_once n) = pos n" "store (render_once n) = store n"
  "log (render_once n) = (current n, store n, fst (App (current n) (store n))) # log n"
  by (simp_all add: render_once_def)

lemma follow_simps [simp]:
  "store (follow t r n) = store n" "log (follow t r n) = log n"
  by (simp_all add: follow_def)

lemma history_ok_follow: "history_ok n \<Longrightarrow> history_ok (follow t r n)"
  by (simp add: follow_def history_ok_def)

lemma history_ok_render: "history_ok n \<Longrightarrow> history_ok (render n)"
  by (auto simp: render_def Let_def history_ok_def follow_def split: sum.splits view.splits)

lemma history_ok_step:
  assumes "history_ok n"
  shows "history_ok (nav_step e n)"
proof (cases e)
  case (Push p)
  from assms have "history_ok (n\<lparr>entries := take (Suc (pos n)) (entries n) @ [p], pos := Suc (pos n)\<rparr>)"
    by (simp add: history_ok_def)
  with Push show ?thesis by (simp add: history_ok_render)
next
  case Back
  from assms have "history_ok (n\<lparr>pos := pos n - 1\<rparr>)" by (simp add: history_ok_def)
  with Back assms show ?thesis by (simp add: history_ok_render)
next
  case Forward
  have "Suc (pos n) < length (entries n) \<Longrightarrow> history_ok (n\<lparr>pos := Suc (pos n)\<rparr>)"
    by (simp add: history_ok_def)
  with Forward assms show ?thesis by (simp add: history_ok_render)
qed (use assms in \<open>simp_all add: history_ok_def\<close>)

lemma renders_guarded_render_once: "renders_guarded n \<Longrightarrow> renders_guarded (render_once n)"
  by (auto simp: renders_guarded_def dest: App_LoanForm_guarded)

lemma renders_guarded_follow [simp]: "renders_guarded (follow t r n) = renders_guarded n"
  by (simp add: renders_guarded_def)

lemma renders_guarded_render:
  assumes "renders_guarded n"
  shows "renders_guarded (render n)"
proof -
  have once: "renders_guarded (render_once n)" using assms by (rule renders_guarded_render_once)
  then have "renders_guarded (render_once (follow t r (render_once n)))" for t r
    by (simp add: renders_guarded_render_once)
  with once show ?thesis by (simp add: render_def Let_def split: sum.splits view.splits)
qed

lemma log_render_page:
  "fst (App (current n) (store n)) = Inr (Page pg) \<Longrightarrow> log (render n) = (current n, store n, Inr (Page pg)) # log n"
  by (simp add: render_def Let_def)

lemma renders_guarded_nav_update [simp]:
  "renders_guarded (n\<lparr>entries := es, pos := i\<rparr>) = renders_guarded n"
  "renders_guarded (n\<lparr>pos := i\<rparr>) = renders_guarded n"
  "renders_guarded (n\<lparr>entries := es\<rparr>) = renders_guarded n"
  "renders_guarded (n\<lparr>store := st\<rparr>) = renders_guarded n"
  by (simp_all add: renders_guarded_def)

lemma renders_guarded_step:
  assumes "renders_guarded n"
  shows "renders_guarded (nav_step e n)"
proof (cases e)
  case (Push p)
  have "renders_guarded (n\<lparr>entries := take (Suc (pos n)) (entries n) @ [p], pos := Suc (pos n)\<rparr>)"
    using assms by simp
  then show ?thesis unfolding Push nav_step.simps by (rule renders_guarded_render)
next
  case Back
  have "renders_guarded (n\<lparr>pos := pos n - 1\<rparr>)" using assms by simp
  then have "renders_guarded (render (n\<lparr>pos := pos n - 1\<rparr>))" by (rule renders_guarded_render)
  with assms show ?thesis unfolding Back nav_step.simps by simp
next
  case Forward
  have "renders_guarded (n\<lparr>pos := Suc (pos n)\<rparr>)" using assms by simp
  then have "renders_guarded (render (n\<lparr>pos := Suc (pos n)\<rparr>))" by (rule renders_guarded_render)
  with assms show ?thesis unfolding Forward nav_step.simps by simp
qed (use assms in \<open>simp_all\<close>)

lemma reachable_renders_guarded: "reachable_nav n \<Longrightarrow> renders_guarded n"
proof (induction rule: reachable_nav.induct)
  case (init path st)
  show ?case unfolding nav_init_def by (rule renders_guarded_render) (simp add: renders_guarded_def)
next
  case (step n e)
  from step.IH show ?case by (rule renders_guarded_step)
qed

lemma store_render [simp]: "store (render n) = store n"
  by (simp add: render_def Let_def split: sum.splits view.splits)

lemma App_redirect_login: "fst (App path st) = Inr (Redirect t r) \<Longrightarrow> t = ''/login''"
  by (auto simp: App_def render_element_def ProtectedRoute_result ebind_def ereturn_def
      split: option.splits route_element.splits if_splits)

lemma current_follow: "history_ok n \<Longrightarrow> current (follow t r n) = t"
  by (simp add: follow_def current_def history_ok_def nth_append)

lemma history_ok_render_once [simp]: "history_ok (render_once n) = history_ok n"
  by (simp add: history_ok_def)

lemma App_redirect_guarded: "fst (App path st) = Inr (Redirect t r) \<Longrightarrow> route_matches ''/loan-form'' path"
proof (cases "find (\<lambda>r. route_matches (fst r) path) routes")
  case None
  then show "fst (App path st) = Inr (Redirect t r) \<Longrightarrow> ?thesis" by (simp add: App_def ereturn_def)
next
  case (Some q)
  then have q: "q \<in> set routes" "route_matches (fst q) path" by (auto simp: find_Some_iff)
  assume a: "fst (App path st) = Inr (Redirect t r)"
  show ?thesis
  proof (cases "snd q")
    case (Elem pg)
    with Some a show ?thesis by (simp add: App_def render_element_def ereturn_def)
  next
    case (Guarded pg)
    with q have "q = (''/loan-form'', Guarded LoanFormPage)" by (auto simp: routes_def)
    with q show ?thesis by simp
  qed
qed

lemma render_no_redirect:
  "(\<And>t r. fst (App (current n) (store n)) \<noteq> Inr (Redirect t r)) \<Longrightarrow> render n = render_once n"
  by (auto simp: render_def Let_def split: sum.splits view.splits)

subsection \<open>Properties of the navigation\<close>

text \<open>
  C10. Whatever sequence of navigations, logins, registrations and logouts led to a
  state, every render that showed the loan form happened with a non-empty token in the
  storage: no path, history move or session change shows the form without a session.
\<close>

theorem loan_form_rendered_only_with_session:
  assumes "reachable_nav n" "(p, st, Inr (Page LoanFormPage)) \<in> set (log n)"
  shows "token_present st"
  using reachable_renders_guarded [OF assms(1)] assms(2)
  by (auto simp: renders_guarded_def list_all_iff)

theorem loan_form_rendered_only_with_session_witness:
  "token_present \<lparr>items = [(''token'', ''t1'')], quota = 100, available = True\<rparr>"
proof -
  let ?st = "\<lparr>items = [(''token'', ''t1'')], quota = 100, available = True\<rparr>"
  let ?n0 = "\<lparr>entries = [''/loan-form''], pos = 0, store = ?st, log = []\<rparr>"
  have r: "reachable_nav (nav_init ''/loan-form'' ?st)" by (rule reachable_nav.init)
  have c: "current ?n0 = ''/loan-form''" by (simp add: current_def)
  have "fst (App ''/loan-form'' ?st) = Inr (Page LoanFormPage)"
    by (simp add: App_guarded route_matches_def strip_slashes_def ascii_lower_def token_present_def store_map_def)
  then have "log (render ?n0) = (current ?n0, store ?n0, Inr (Page LoanFormPage)) # log ?n0"
    by (intro log_render_page) (simp only: c nav.select_convs)
  then have m: "(''/loan-form'', ?st, Inr (Page LoanFormPage)) \<in> set (log (nav_init ''/loan-form'' ?st))"
    by (simp add: nav_init_def c)
  from r m show ?thesis by (rule loan_form_rendered_only_with_session)
qed

lemma current_push:
  "history_ok n \<Longrightarrow> current (n\<lparr>entries := take (Suc (pos n)) (entries n) @ [p], pos := Suc (pos n)\<rparr>) = p"
  by (simp add: current_def history_ok_def nth_append min_def)

lemma render_redirect_login:
  assumes "history_ok m" "current m = p" "route_matches ''/loan-form'' p"
    "available (store m)" "\<not> token_present (store m)"
  shows "render m = m\<lparr>entries := (entries m)[pos m := ''/login''],
     log := (''/login'', store m, Inr (Page LoginPage)) # (p, store m, Inr (Redirect ''/login'' True)) # log m\<rparr>"
proof -
  have a: "fst (App (current m) (store m)) = Inr (Redirect ''/login'' True)"
    using assms by (simp add: App_guarded)
  have c: "current (follow ''/login'' True (render_once m)) = ''/login''"
    using assms(1) by (simp add: current_def follow_def history_ok_def)
  show ?thesis
    using a c assms(2) by (simp add: render_def Let_def render_once_def follow_def)
qed

text \<open>
  C11. Opening the guarded path without a session, in available storage, replaces the new
  history entry with \<open>/login\<close>: the render shows the redirect, then the login page, and the
  back button does not lead back to the guarded path.
\<close>

theorem push_guarded_redirects_to_login:
  assumes "history_ok n" "route_matches ''/loan-form'' p"
    "available (store n)" "\<not> token_present (store n)"
  shows "nav_step (Push p) n =
     n\<lparr>entries := take (Suc (pos n)) (entries n) @ [''/login''], pos := Suc (pos n),
       log := (''/login'', store n, Inr (Page LoginPage)) # (p, store n, Inr (Redirect ''/login'' True)) # log n\<rparr>"
proof -
  let ?m = "n\<lparr>entries := take (Suc (pos n)) (entries n) @ [p], pos := Suc (pos n)\<rparr>"
  have h: "history_ok ?m" using assms(1) by (simp add: history_ok_def)
  have "render ?m = ?m\<lparr>entries := (entries ?m)[pos ?m := ''/login''],
     log := (''/login'', store ?m, Inr (Page LoginPage)) # (p, store ?m, Inr (Redirect ''/login'' True)) # log ?m\<rparr>"
    using assms h current_push [OF assms(1)] by (intro render_redirect_login) simp_all
  moreover have "(take (Suc (pos n)) (entries n) @ [p])[Suc (pos n) := ''/login''] = take (Suc (pos n)) (entries n) @ [''/login'']"
    using assms(1) by (simp add: history_ok_def list_update_append min_def)
  ultimately show ?thesis by simp
qed

theorem push_guarded_redirects_to_login_witness:
  "nav_step (Push ''/Loan-Form/'') \<lparr>entries = [''/register''], pos = 0, store = empty_storage 100, log = []\<rparr> =
     \<lparr>entries = [''/register'', ''/login''], pos = 1, store = empty_storage 100,
      log = [(''/login'', empty_storage 100, Inr (Page LoginPage)), (''/Loan-Form/'', empty_storage 100, Inr (Redirect ''/login'' True))]\<rparr>"
proof -
  have r: "route_matches ''/loan-form'' ''/Loan-Form/''" by code_simp
  show ?thesis
    using push_guarded_redirects_to_login
      [of "\<lparr>entries = [''/register''], pos = 0, store = empty_storage 100, log = []\<rparr>", OF _ r]
    by (simp add: history_ok_def empty_storage_def token_present_def store_map_def)
qed

lemma logout_no_token:
  "available st \<Longrightarrow> \<not> token_present (snd (logoutUser st)) \<and> available (snd (logoutUser st))"
  by (simp add: logoutUser_available token_present_def store_map_def prelude_simps)

text \<open>
  C12. Logging out and then opening the guarded path shows the redirect and the login
  page, rendered with the storage the logout left: a logout ends access to the loan form
  at the next navigation.
\<close>

theorem logout_then_loan_form_redirects:
  assumes "history_ok n" "available (store n)" "route_matches ''/loan-form'' p"
  shows "take 2 (log (nav_step (Push p) (nav_step Logout n))) =
     [(''/login'', snd (logoutUser (store n)), Inr (Page LoginPage)),
      (p, snd (logoutUser (store n)), Inr (Redirect ''/login'' True))]"
proof -
  let ?l = "nav_step Logout n"
  let ?m = "?l\<lparr>entries := take (Suc (pos ?l)) (entries ?l) @ [p], pos := Suc (pos ?l)\<rparr>"
  have l: "history_ok ?l" using assms(1) by (simp add: history_ok_def)
  have h: "history_ok ?m" using l by (simp add: history_ok_def)
  have st: "store ?m = snd (logoutUser (store n))" by simp
  have "log (render ?m) = (''/login'', store ?m, Inr (Page LoginPage)) # (p, store ?m, Inr (Redirect ''/login'' True)) # log ?m"
    using render_redirect_login [OF h current_push [OF l] assms(3)] logout_no_token [OF assms(2)] by simp
  then show ?thesis by (simp only: st nav_step.simps) simp
qed

theorem logout_then_loan_form_redirects_witness:
  "take 2 (log (nav_step (Push ''/loan-form'') (nav_step Logout
      \<lparr>entries = [''/''], pos = 0, store = \<lparr>items = [(''token'', ''t1''), (''user'', ''u'')], quota = 100, available = True\<rparr>, log = []\<rparr>))) =
     [(''/login'', \<lparr>items = [], quota = 100, available = True\<rparr>, Inr (Page LoginPage)),
      (''/loan-form'', \<lparr>items = [], quota = 100, available = True\<rparr>, Inr (Redirect ''/login'' True))]"
proof -
  have r: "route_matches ''/loan-form'' ''/loan-form''" by code_simp
  show ?thesis
    using logout_then_loan_form_redirects
      [of "\<lparr>entries = [''/''], pos = 0, store = \<lparr>items = [(''token'', ''t1''), (''user'', ''u'')], quota = 100, available = True\<rparr>, log = []\<rparr>", OF _ _ r]
    by (simp add: history_ok_def logoutUser_available)
qed

text \<open>
  C20. From any state of the browser session with readable storage, a login the server
  accepts with a token and room in the storage for the session, followed by a
  navigation to \<open>/loan-form\<close>, shows the loan form: the guard never keeps an
  authenticated user out.
\<close>

theorem login_then_loan_form_shown:
  assumes "history_ok n" "available (store n)"
    and "srv (login_request kvs (store n)) = Response status (JObj dkvs)" "200 \<le> status" "status < 300"
    and "map_of (rev dkvs) ''token'' = Some tok" "truthy tok" "js_to_string tok \<noteq> []"
    and "usage (AList.update ''token'' (js_to_string tok) (items (store n))) \<le> quota (store n)"
    and "usage (AList.update ''user'' (js_str (json_stringify (map_of (rev dkvs) ''user'')))
               (AList.update ''token'' (js_to_string tok) (items (store n)))) \<le> quota (store n)"
  shows "hd (log (fold nav_step [Login srv (Some (JObj kvs)), Push ''/loan-form''] n)) =
     (''/loan-form'', snd (loginUser srv (Some (JObj kvs)) (store n)), Inr (Page LoanFormPage))"
proof -
  let ?st = "snd (loginUser srv (Some (JObj kvs)) (store n))"
  let ?l = "nav_step (Login srv (Some (JObj kvs))) n"
  let ?m = "?l\<lparr>entries := take (Suc (pos ?l)) (entries ?l) @ [''/loan-form''], pos := Suc (pos ?l)\<rparr>"
  have st: "?st = (store n)\<lparr>items := AList.update ''user'' (js_str (json_stringify (map_of (rev dkvs) ''user'')))
                                (AList.update ''token'' (js_to_string tok) (items (store n)))\<rparr>"
    using loginUser_writes_session [where srv = srv and kvs = kvs and status = status and dkvs = dkvs and tok = tok,
        OF assms(2-7,9,10)] by simp
  have h: "history_ok ?l" using assms(1) by (simp add: history_ok_def)
  have r: "route_matches ''/loan-form'' ''/loan-form''" by code_simp
  have "available ?st" "token_present ?st"
    using st assms(2,6,8) by (simp_all add: token_present_def store_map_def prelude_simps)
  then have "fst (App (current ?m) (store ?m)) = Inr (Page LoanFormPage)"
    using App_guarded [OF r] current_push [OF h] by simp
  then have "log (render ?m) = (current ?m, store ?m, Inr (Page LoanFormPage)) # log ?m"
    by (rule log_render_page)
  then show ?thesis using current_push [OF h] by simp
qed

theorem login_then_loan_form_shown_witness:
  "hd (log (fold nav_step [Login (\<lambda>r. Response 200 (JObj [(''token'', JStr ''t1''), (''user'', JObj [])])) (Some (JObj [])),
       Push ''/loan-form''] \<lparr>entries = [''/''], pos = 0, store = empty_storage 30, log = []\<rparr>))
   = (''/loan-form'', snd (loginUser (\<lambda>r. Response 200 (JObj [(''token'', JStr ''t1''), (''user'', JObj [])])) (Some (JObj []))
        (store \<lparr>entries = [''/''], pos = 0, store = empty_storage 30, log = []\<rparr>)), Inr (Page LoanFormPage))"
  by (rule login_then_loan_form_shown [where status = 200 and tok = "JStr ''t1''"])
     (simp add: history_ok_def empty_storage_def | code_simp)+

text \<open>
  C21. The single follow-up render \<open>render\<close> is the router's redirect loop: from any
  state whose current entry is in the history, following redirects for as long as the
  renders return one (with any fuel from two on) ends in the same state, because the
  guard only ever redirects to \<open>/login\<close>, which renders without redirecting.
\<close>

theorem render_loop_eq_render:
  assumes "history_ok n" "2 \<le> k"
  shows "render_loop k n = render n"
proof -
  obtain k' where k: "k = Suc (Suc k')" using assms(2) by (metis add_2_eq_Suc le_Suc_ex)
  show ?thesis
  proof (cases "fst (App (current n) (store n))")
    case (Inr v)
    show ?thesis
    proof (cases v)
      case (Redirect t r)
      with Inr have t: "t = ''/login''" by (blast dest: App_redirect_login)
      have "current (follow t r (render_once n)) = ''/login''"
        using assms(1) t by (simp add: current_follow)
      with Inr Redirect k show ?thesis by (simp add: render_def Let_def)
    qed (use Inr k in \<open>simp_all add: render_def Let_def\<close>)
  qed (use k in \<open>simp add: render_def Let_def\<close>)
qed

theorem render_loop_eq_render_witness:
  "render_loop 5 \<lparr>entries = [''/loan-form''], pos = 0, store = empty_storage 10, log = []\<rparr>
   = render \<lparr>entries = [''/loan-form''], pos = 0, store = empty_storage 10, log = []\<rparr>"
  by (rule render_loop_eq_render) (simp_all add: history_ok_def)

text \<open>
  C27. After the guard has redirected an anonymous visit of the guarded path, the back
  button returns to the page before it, not to the blocked page: the redirect replaced
  the guarded entry, so going back renders the previous entry (when that one is not
  guarded itself).
\<close>

theorem back_after_redirect_skips_guarded:
  assumes "history_ok n" "route_matches ''/loan-form'' p" "available (store n)" "\<not> token_present (store n)"
    and "\<not> route_matches ''/loan-form'' (current n)"
  shows "current (nav_step Back (nav_step (Push p) n)) = current n
       \<and> hd (log (nav_step Back (nav_step (Push p) n))) = (current n, store n, fst (App (current n) (store n)))"
proof -
  let ?m = "n\<lparr>entries := take (Suc (pos n)) (entries n) @ [p], pos := Suc (pos n)\<rparr>"
  have h: "history_ok ?m" using assms(1) by (simp add: history_ok_def)
  have push: "nav_step (Push p) n = ?m\<lparr>entries := (entries ?m)[pos ?m := ''/login''],
     log := (''/login'', store ?m, Inr (Page LoginPage)) # (p, store ?m, Inr (Redirect ''/login'' True)) # log ?m\<rparr>"
    using render_redirect_login [OF h current_push [OF assms(1)] assms(2)] assms(3,4) by simp
  let ?b = "(nav_step (Push p) n)\<lparr>pos := pos n\<rparr>"
  have cb: "current ?b = current n"
    using assms(1) unfolding push by (simp add: current_def history_ok_def nth_append nth_list_update min_def)
  have sb: "store ?b = store n" unfolding push by simp
  have "render ?b = render_once ?b"
    by (rule render_no_redirect) (use assms(5) cb sb in \<open>auto dest: App_redirect_guarded\<close>)
  moreover have "nav_step Back (nav_step (Push p) n) = render ?b" unfolding push by simp
  ultimately show ?thesis using cb sb by (simp add: current_def)
qed

theorem back_after_redirect_skips_guarded_witness:
  "current (nav_step Back (nav_step (Push ''/loan-form'')
      \<lparr>entries = [''/register''], pos = 0, store = empty_storage 10, log = []\<rparr>)) = ''/register''
   \<and> hd (log (nav_step Back (nav_step (Push ''/loan-form'')
      \<lparr>entries = [''/register''], pos = 0, store = empty_storage 10, log = []\<rparr>)))
     = (''/register'', empty_storage 10, fst (App ''/register'' (empty_storage 10)))"
proof -
  have r: "route_matches ''/loan-form'' ''/loan-form''" "\<not> route_matches ''/loan-form'' ''/register''" by code_simp+
  show ?thesis
    using back_after_redirect_skips_guarded
      [of "\<lparr>entries = [''/register''], pos = 0, store = empty_storage 10, log = []\<rparr>", OF _ r(1)] r(2)
    by (simp add: history_ok_def current_def empty_storage_def token_present_def store_map_def)
qed

end
