(* ===== verification/Loan_Service.thy ===== *)
theory Loan_Service
  imports Service_Errors
begin

text \<open>
  \<open>src/services/loanService.js\<close>: the domain services. They do not touch the session;
  they call the API client (which attaches the stored token) and follow the same error
  contract as the authentication service, each with its own fallback message.
\<close>

definition submitLoanApplication :: "server \<Rightarrow> jsval \<Rightarrow> (json, storage, json) est" where
  "submitLoanApplication srv loanData = service_catch ''Loan application submission failed''
     (ebind (jget loanData ''fullName'') (\<lambda>fullName.
      ebind (jget loanData ''mobileNumber'') (\<lambda>mobileNumber.
      ebind (jget loanData ''email'') (\<lambda>email.
      ebind (jget loanData ''loanAmount'') (\<lambda>loanAmount.
      ebind (jget loanData ''loanDurationMonths'') (\<lambda>loanDurationMonths.
      ebind (jget loanData ''loanPurpose'') (\<lambda>loanPurpose.
      ebind (jget loanData ''employmentType'') (\<lambda>employmentType.
      ebind (jget loanData ''monthlyIncome'') (\<lambda>monthlyIncome.
      api_post srv ''/loans/apply''
        (obj_lit [(''fullName'', fullName), (''mobileNumber'', mobileNumber), (''email'', email),
                  (''loanAmount'', loanAmount), (''loanDurationMonths'', loanDurationMonths),
                  (''loanPurpose'', loanPurpose), (''employmentType'', employmentType),
                  (''monthlyIncome'', monthlyIncome)]))))))))))"

definition getUserLoans :: "server \<Rightarrow> (json, storage, json) est" where
  "getUserLoans srv = service_catch ''Failed to fetch loan applications'' (api_get srv ''/loans/my-loans'')"

text \<open>The template literal \<open>`/loans/${loanId}`\<close> applies \<open>ToString\<close> to the argument.\<close>

definition getLoanDetails :: "server \<Rightarrow> jsval \<Rightarrow> (json, storage, json) est" where
  "getLoanDetails srv loanId =
     service_catch ''Failed to fetch loan details'' (api_get srv (''/loans/'' @ js_str loanId))"

text \<open>The properties \<open>submitLoanApplication\<close> copies into the request body (lines 8 to 15).\<close>

definition loan_fields :: "string list" where
  "loan_fields = [''fullName'', ''mobileNumber'', ''email'', ''loanAmount'', ''loanDurationMonths'',
     ''loanPurpose'', ''employmentType'', ''monthlyIncome'']"

subsection \<open>Requests and outcomes\<close>

text \<open>
  C15. \<open>getUserLoans()\<close> on readable storage: it sends one \<open>GET /loans/my-loans\<close> carrying
  the stored token, resolves with the body of a \<open>2xx\<close> response, throws the body of any
  other response when it is truthy and the fallback message otherwise, also when no
  response arrives; the storage is unchanged.
\<close>

theorem getUserLoans_result:
  assumes "available st"
  shows "getUserLoans srv st =
     (case srv (sent_request GET ''/loans/my-loans'' None st) of
        Response s d \<Rightarrow> if 200 \<le> s \<and> s < 300 then Inr d
                        else Inl (if truthy d then d else fallback ''Failed to fetch loan applications'')
      | NoResponse \<Rightarrow> Inl (fallback ''Failed to fetch loan applications''), st)"
  using assms by (simp add: getUserLoans_def api_get_def service_request_result)

theorem getUserLoans_result_witness:
  "getUserLoans (\<lambda>r. if req_auth r = Some ''Bearer t1'' then Response 200 (JArr []) else Response 401 (JStr ''''))
      \<lparr>items = [(''token'', ''t1'')], quota = 100, available = True\<rparr>
     = (Inr (JArr []), \<lparr>items = [(''token'', ''t1'')], quota = 100, available = True\<rparr>)
   \<and> getUserLoans (\<lambda>r. if req_auth r = Some ''Bearer t1'' then Response 200 (JArr []) else Response 401 (JStr ''''))
      \<lparr>items = [], quota = 100, available = True\<rparr>
     = (Inl (fallback ''Failed to fetch loan applications''), \<lparr>items = [], quota = 100, available = True\<rparr>)"
  using getUserLoans_result [of "\<lparr>items = [(''token'', ''t1'')], quota = 100, available = True\<rparr>"]
    getUserLoans_result [of "\<lparr>items = [], quota = 100, available = True\<rparr>"]
  by (simp add: sent_request_def bearer_def store_map_def)

text \<open>
  C16. \<open>getLoanDetails(loanId)\<close> requests \<open>GET /loans/\<close> followed by \<open>String(loanId)\<close>,
  carrying the stored token as a bearer credential, and answers as every service does:
  the body of a \<open>2xx\<close> response, otherwise the truthy error body or the fallback.
\<close>

theorem getLoanDetails_request:
  assumes "available st"
  shows "getLoanDetails srv loanId st =
     (case srv \<lparr>req_method = GET, req_path = ''/loans/'' @ js_str loanId, req_body = None,
                req_auth = map_option (\<lambda>t. ''Bearer '' @ t) (map_of (items st) ''token'')\<rparr> of
        Response s d \<Rightarrow> if 200 \<le> s \<and> s < 300 then Inr d
                        else Inl (if truthy d then d else fallback ''Failed to fetch loan details'')
      | NoResponse \<Rightarrow> Inl (fallback ''Failed to fetch loan details''), st)"
  using assms
  by (simp add: getLoanDetails_def api_get_def service_request_result sent_request_def
      bearer_def store_map_def)

theorem getLoanDetails_request_witness:
  "getLoanDetails (\<lambda>r. if req_path r = ''/loans/42'' \<and> req_auth r = Some ''Bearer t1''
                         then Response 200 (JObj [(''id'', JNum 42)]) else Response 404 (JObj []))
      (Some (JNum 42)) \<lparr>items = [(''token'', ''t1'')], quota = 100, available = True\<rparr>
     = (Inr (JObj [(''id'', JNum 42)]), \<lparr>items = [(''token'', ''t1'')], quota = 100, available = True\<rparr>)
   \<and> getLoanDetails (\<lambda>r. if req_path r = ''/loans/42'' \<and> req_auth r = Some ''Bearer t1''
                         then Response 200 (JObj [(''id'', JNum 42)]) else Response 404 (JObj []))
      None \<lparr>items = [(''token'', ''t1'')], quota = 100, available = True\<rparr>
     = (Inl (JObj []), \<lparr>items = [(''token'', ''t1'')], quota = 100, available = True\<rparr>)"
proof -
  have "js_str (Some (JNum 42)) = ''42''" by code_simp
  then show ?thesis
    using getLoanDetails_request [of "\<lparr>items = [(''token'', ''t1'')], quota = 100, available = True\<rparr>"]
    by (simp add: js_str_def)
qed

text \<open>
  C17. \<open>submitLoanApplication\<close> called with \<open>undefined\<close> or \<open>null\<close> rejects with its
  fallback message: reading \<open>loanData.fullName\<close> throws a \<open>TypeError\<close>, which the catch
  clause replaces; no request is sent and the storage is unchanged, whatever the server.
\<close>

theorem submitLoanApplication_missing_data:
  "submitLoanApplication srv None st = (Inl (fallback ''Loan application submission failed''), st)
   \<and> submitLoanApplication srv (Some JNull) st = (Inl (fallback ''Loan application submission failed''), st)"
  by (simp add: submitLoanApplication_def jget_def js_get_def elift_def ebind_def service_catch_def
      ecatch_def ethrow_def rethrow_def)

text \<open>
  C18. For loan data given as an object on readable storage, \<open>submitLoanApplication\<close>
  sends one \<open>POST /loans/apply\<close> whose body holds exactly the eight form fields the
  object defines, in the source's order (fields it lacks are dropped, other properties
  are not sent), and resolves or rejects with the response under the error contract.
\<close>

theorem submitLoanApplication_sends_fields:
  assumes "available st"
  shows "submitLoanApplication srv (Some (JObj kvs)) st =
     (case http_outcome (srv (sent_request POST ''/loans/apply''
              (Some (obj_lit (map (\<lambda>k. (k, map_of (rev kvs) k)) loan_fields))) st)) of
        Inl e \<Rightarrow> Inl (rethrow ''Loan application submission failed'' e)
      | Inr d \<Rightarrow> Inr d, st)"
  using assms
  by (simp add: submitLoanApplication_def api_post_def loan_fields_def ebind_def service_api_request)

theorem submitLoanApplication_sends_fields_witness:
  "submitLoanApplication (\<lambda>r. case req_body r of Some b \<Rightarrow> Response 201 b | None \<Rightarrow> Response 400 JNull)
      (Some (JObj [(''fullName'', JStr ''A''), (''isAdmin'', JBool True), (''loanAmount'', JNum 5000)]))
      \<lparr>items = [], quota = 100, available = True\<rparr>
   = (Inr (JObj [(''fullName'', JStr ''A''), (''loanAmount'', JNum 5000)]), \<lparr>items = [], quota = 100, available = True\<rparr>)"
  using submitLoanApplication_sends_fields [of "\<lparr>items = [], quota = 100, available = True\<rparr>"]
  by (simp add: loan_fields_def obj_lit_def sent_request_def http_outcome_def)

end
