(* ===== verification/Json_Roundtrip.thy ===== *)
theory Json_Roundtrip
  imports Json
begin

text \<open>
  \<open>JSON.parse\<close> inverts \<open>JSON.stringify\<close> on well-formed values (objects with
  distinct keys): the property the session relies on when \<open>getCurrentUser\<close> reads back
  the profile \<open>loginUser\<close> stored. The proof goes bottom-up: decimal numerals, string
  escapes, then arrays and objects by induction on the value with the fuel bounded by
  \<open>jsize\<close>, which is less than the length of the printed text.
\<close>

subsection \<open>Numbers\<close>

lemma of_char_digit_char [simp]: "d < 10 \<Longrightarrow> (of_char (digit_char d) :: nat) = 48 + d"
  by (simp add: digit_char_def)

lemma is_digit_digit_char [simp]: "d < 10 \<Longrightarrow> is_digit (digit_char d)"
  by (simp add: is_digit_def)

declare nat_digits.simps [simp del]

lemma nat_digits_all_digits: "c \<in> set (nat_digits n) \<Longrightarrow> is_digit c"
proof (induction n rule: nat_digits.induct)
  case (1 n)
  then show ?case by (subst (asm) nat_digits.simps) (auto split: if_splits)
qed

lemma nat_digits_ne: "nat_digits n \<noteq> []"
  by (subst nat_digits.simps) simp

lemma digits_value_snoc: "digits_value (ds @ [d]) = 10 * digits_value ds + (of_char d - 48)"
  by (simp add: digits_value_def)

lemma digits_value_nat_digits: "digits_value (nat_digits n) = n"
proof (induction n rule: nat_digits.induct)
  case (1 n)
  show ?case
  proof (cases "n < 10")
    case True
    then show ?thesis by (subst nat_digits.simps) (simp add: digits_value_def)
  next
    case False
    with "1.IH" have "digits_value (nat_digits (n div 10)) = n div 10" by simp
    with False show ?thesis by (subst nat_digits.simps) (simp add: digits_value_snoc)
  qed
qed

lemma nat_digits_hd: "0 < n \<Longrightarrow> hd (nat_digits n) \<noteq> CHR ''0''"
proof (induction n rule: nat_digits.induct)
  case (1 n)
  show ?case
  proof (cases "n < 10")
    case True
    then have "(of_char (digit_char n) :: nat) \<noteq> of_char (CHR ''0'')" using "1.prems" by simp
    then have "digit_char n \<noteq> CHR ''0''" by metis
    with True show ?thesis by (subst nat_digits.simps) simp
  next
    case False
    then have "0 < n div 10" by simp
    with "1.IH" False have "hd (nat_digits (n div 10)) \<noteq> CHR ''0''" by simp
    with False show ?thesis by (subst nat_digits.simps) (simp add: nat_digits_ne)
  qed
qed

lemma nat_digits_zero: "nat_digits 0 = ''0''"
  by code_simp

lemma takeWhile_digits_app:
  "\<not> starts_digit rest \<Longrightarrow> (\<And>c. c \<in> set ds \<Longrightarrow> is_digit c) \<Longrightarrow> takeWhile is_digit (ds @ rest) = ds"
  by (cases rest) (simp_all add: starts_digit_def takeWhile_append2)

lemma dropWhile_digits_app:
  "\<not> starts_digit rest \<Longrightarrow> (\<And>c. c \<in> set ds \<Longrightarrow> is_digit c) \<Longrightarrow> dropWhile is_digit (ds @ rest) = rest"
  by (cases rest) (simp_all add: starts_digit_def dropWhile_append2)

lemma parse_nat_nat_digits:
  assumes "\<not> starts_digit rest"
  shows "parse_nat (nat_digits n @ rest) = Some (n, rest)"
proof (cases "n = 0")
  case True
  then show ?thesis by (simp add: nat_digits_zero parse_nat_def)
next
  case False
  obtain d ds where dd: "nat_digits n = d # ds" using nat_digits_ne by (cases "nat_digits n") auto
  from False have "d \<noteq> CHR ''0''" using nat_digits_hd [of n] dd by simp
  moreover have "is_digit d" using nat_digits_all_digits [of d n] dd by simp
  moreover have "takeWhile is_digit (nat_digits n @ rest) = nat_digits n"
    using assms nat_digits_all_digits by (rule takeWhile_digits_app)
  moreover have "dropWhile is_digit (nat_digits n @ rest) = rest"
    using assms nat_digits_all_digits by (rule dropWhile_digits_app)
  ultimately show ?thesis
    using dd digits_value_nat_digits [of n] by (simp add: parse_nat_def)
qed

lemma parse_num_int_to_dec:
  assumes "\<not> starts_digit rest"
  shows "parse_num (int_to_dec i @ rest) = Some (i, rest)"
proof (cases "i < 0")
  case True
  then show ?thesis using parse_nat_nat_digits [OF assms, of "nat (- i)"]
    by (simp add: int_to_dec_def parse_num_def)
next
  case False
  obtain d ds where dd: "nat_digits (nat i) = d # ds" using nat_digits_ne by (cases "nat_digits (nat i)") auto
  have "is_digit d" using nat_digits_all_digits [of d "nat i"] dd by simp
  then have "d \<noteq> CHR ''-''" by (auto simp: is_digit_def)
  with False dd show ?thesis using parse_nat_nat_digits [OF assms, of "nat i"]
    by (simp add: int_to_dec_def parse_num_def)
qed

subsection \<open>String literals\<close>

lemma of_char_quote_chars [simp]:
  "(of_char dquote :: nat) = 34" "(of_char bslash :: nat) = 92"
  by (simp_all add: dquote_def bslash_def)

lemma quote_chars_distinct [simp]:
  "dquote \<noteq> bslash" "bslash \<noteq> dquote" "CHR ''u'' \<noteq> dquote" "CHR ''u'' \<noteq> bslash"
  "dquote \<noteq> CHR ''u''" "bslash \<noteq> CHR ''u''"
  by (simp_all add: dquote_def bslash_def)

lemma char_eq_by_code: "c = d \<longleftrightarrow> (of_char c :: nat) = of_char d"
  by simp

lemma hex_val_hex_digit [simp]: "k < 16 \<Longrightarrow> hex_val (hex_digit k) = Some k"
  by (auto simp: hex_val_def hex_digit_def Let_def)

lemma hex_val_zero [simp]: "hex_val (CHR ''0'') = Some 0"
  by (simp add: hex_val_def)

lemma parse_str_plain:
  "c \<noteq> dquote \<Longrightarrow> c \<noteq> bslash \<Longrightarrow> \<not> of_char c < (32::nat) \<Longrightarrow> parse_str (c # r) = cons_fst c (parse_str r)"
  by simp

lemma parse_str_simple_escape:
  "simple_escape e = Some d \<Longrightarrow> e \<noteq> CHR ''u'' \<Longrightarrow> parse_str (bslash # e # r) = cons_fst d (parse_str r)"
  by simp

lemma hex4_control:
  assumes "n < 32"
  shows "hex4 [CHR ''0'', CHR ''0'', hex_digit (n div 16), hex_digit (n mod 16)] = Some (char_of n)"
proof -
  have "n div 16 < 16" "n mod 16 < 16" using assms by simp_all
  then have "foldl (\<lambda>acc c. 16 * acc + the (hex_val c)) 0
      [CHR ''0'', CHR ''0'', hex_digit (n div 16), hex_digit (n mod 16)] = n"
    by simp
  with assms \<open>n div 16 < 16\<close> \<open>n mod 16 < 16\<close> show ?thesis
    by (simp add: hex4_def)
qed

lemma parse_str_esc_char: "parse_str (esc_char c @ r) = cons_fst c (parse_str r)"
proof -
  define n where "n = (of_char c :: nat)"
  have c_eq: "c = char_of n" by (simp add: n_def)
  have n_lt: "n < 256" by (simp add: n_def)
  consider (q) "n = 34" | (b) "n = 92" | (s) "n \<in> {8, 9, 10, 12, 13}"
    | (u) "n < 32" "n \<notin> {8, 9, 10, 12, 13}" | (p) "32 \<le> n" "n \<noteq> 34" "n \<noteq> 92"
    by linarith
  then show ?thesis
  proof cases
    case q
    then have "c = dquote" using c_eq by (simp add: char_eq_by_code)
    then show ?thesis by (simp add: esc_char_def simple_escape_def)
  next
    case b
    then have "c = bslash" using c_eq by (simp add: char_eq_by_code)
    then show ?thesis by (simp add: esc_char_def simple_escape_def)
  next
    case s
    then show ?thesis using c_eq
      by (auto simp: esc_char_def simple_escape_def dquote_def bslash_def)
  next
    case u
    then have "esc_char c = [bslash, CHR ''u'', CHR ''0'', CHR ''0'', hex_digit (n div 16), hex_digit (n mod 16)]"
      by (auto simp: esc_char_def n_def Let_def)
    with u hex4_control [of n] show ?thesis using c_eq by simp
  next
    case p
    then have "esc_char c = [c]" by (auto simp: esc_char_def n_def Let_def)
    moreover have "c \<noteq> dquote" "c \<noteq> bslash" using p by (auto simp: n_def char_eq_by_code)
    ultimately show ?thesis using p by (simp add: n_def)
  qed
qed

lemma parse_str_quote_str_body:
  "parse_str (concat (map esc_char s) @ dquote # rest) = Some (s, rest)"
proof (induction s)
  case Nil
  then show ?case by simp
next
  case (Cons c s)
  then show ?case by (simp add: parse_str_esc_char cons_fst_def)
qed

lemma parse_str_quote_str: "quote_str s @ rest = dquote # concat (map esc_char s) @ dquote # rest"
  by (simp add: quote_str_def)

subsection \<open>Arrays and objects\<close>

lemma skip_ws_nonws [simp]: "\<not> is_ws c \<Longrightarrow> skip_ws (c # cs) = c # cs"
  by simp

lemma structural_not_ws [simp]:
  "\<not> is_ws (CHR '','')" "\<not> is_ws (CHR '']'')" "\<not> is_ws (CHR ''}'')" "\<not> is_ws (CHR '':'')"
  "\<not> is_ws dquote" "\<not> is_ws (CHR ''['')" "\<not> is_ws (CHR ''{'')"
  by (simp_all add: is_ws_def dquote_def)

lemma is_digit_not_special:
  "is_digit c \<Longrightarrow> \<not> is_ws c \<and> c \<noteq> CHR ''n'' \<and> c \<noteq> CHR ''t'' \<and> c \<noteq> CHR ''f'' \<and> c \<noteq> dquote
     \<and> c \<noteq> CHR ''['' \<and> c \<noteq> CHR ''{'' \<and> c \<noteq> CHR '']'' \<and> c \<noteq> CHR ''}'' \<and> c \<noteq> CHR '',''"
  by (auto simp: is_digit_def is_ws_def)

lemma nat_digits_head: "\<exists>d ds. nat_digits n = d # ds \<and> is_digit d"
proof -
  obtain d ds where dd: "nat_digits n = d # ds"
    using nat_digits_ne by (meson list.exhaust)
  then have "is_digit d" using nat_digits_all_digits [of d n] by simp
  with dd show ?thesis by blast
qed

lemma int_to_dec_head: "\<exists>c cs. int_to_dec i = c # cs \<and> (c = CHR ''-'' \<or> is_digit c)"
proof (cases "i < 0")
  case True
  then show ?thesis by (simp add: int_to_dec_def)
next
  case False
  obtain d ds where dd: "nat_digits (nat i) = d # ds" and "is_digit d"
    using nat_digits_head [of "nat i"] by blast
  moreover from False dd have "int_to_dec i = d # ds" by (simp add: int_to_dec_def)
  ultimately show ?thesis by blast
qed

lemma stringify_head:
  "\<exists>c cs. stringify v = c # cs \<and> \<not> is_ws c \<and> c \<noteq> CHR '']'' \<and> c \<noteq> CHR ''}'' \<and> c \<noteq> CHR '',''"
proof (cases v)
  case JNull
  then show ?thesis by (simp add: is_ws_def)
next
  case (JBool b)
  then show ?thesis by (cases b) (simp_all add: is_ws_def)
next
  case (JNum i)
  obtain c cs where ic: "int_to_dec i = c # cs" and c: "c = CHR ''-'' \<or> is_digit c"
    using int_to_dec_head [of i] by blast
  have "\<not> is_ws c \<and> c \<noteq> CHR '']'' \<and> c \<noteq> CHR ''}'' \<and> c \<noteq> CHR '',''"
    using c is_digit_not_special [of c] by (auto simp: is_ws_def)
  with JNum ic show ?thesis by simp
next
  case (JStr s)
  then show ?thesis by (simp add: is_ws_def quote_str_def dquote_def)
next
  case (JArr xs)
  then show ?thesis by (simp add: is_ws_def)
next
  case (JObj kvs)
  then show ?thesis by (simp add: is_ws_def)
qed

lemma join_stringify_head:
  "xs \<noteq> [] \<Longrightarrow> \<exists>c cs. join_with (CHR '','') (map stringify xs) @ r = c # cs \<and> \<not> is_ws c \<and> c \<noteq> CHR '']''"
proof (cases xs)
  case (Cons x xs')
  obtain c cs where "stringify x = c # cs" "\<not> is_ws c" "c \<noteq> CHR '']''"
    using stringify_head [of x] by blast
  with Cons show ?thesis by (cases xs') auto
qed simp

lemma not_starts_digit_sep [simp]:
  "\<not> starts_digit (CHR '','' # r)" "\<not> starts_digit (CHR '']'' # r)" "\<not> starts_digit (CHR ''}'' # r)"
  by (simp_all add: starts_digit_def is_digit_def)

lemma parse_elems_stringify:
  assumes IH: "\<And>x m r. x \<in> set xs \<Longrightarrow> jsize x < m \<Longrightarrow> \<not> starts_digit r \<Longrightarrow>
                 parse_value m (stringify x @ r) = Some (x, r)"
    and ne: "xs \<noteq> []"
    and fuel: "sum_list (map (\<lambda>x. Suc (jsize x)) xs) < m"
  shows "parse_elems m (join_with (CHR '','') (map stringify xs) @ CHR '']'' # rest) = Some (xs, rest)"
  using assms
proof (induction xs arbitrary: m)
  case Nil
  then show ?case by simp
next
  case (Cons x xs)
  from Cons.prems(3) obtain m' where m: "m = Suc m'" and fx: "jsize x < m'"
    by (cases m) auto
  show ?case
  proof (cases xs)
    case Nil
    have "parse_value m' (stringify x @ CHR '']'' # rest) = Some (x, CHR '']'' # rest)"
      using Cons.prems(1) [of x m'] fx by simp
    with Nil m show ?thesis by simp
  next
    case (Cons y ys)
    have px: "parse_value m' (stringify x @ CHR '','' # join_with (CHR '','') (map stringify xs) @ CHR '']'' # rest)
        = Some (x, CHR '','' # join_with (CHR '','') (map stringify xs) @ CHR '']'' # rest)"
      using Cons.prems(1) [of x m'] fx by simp
    have "parse_elems m' (join_with (CHR '','') (map stringify xs) @ CHR '']'' # rest) = Some (xs, rest)"
      using Cons.IH [of m'] Cons.prems Cons m by simp
    with px Cons m show ?thesis by (simp add: cons_fst_def)
  qed
qed

lemma dquote_ne_starts [simp]:
  "dquote \<noteq> CHR ''n''" "dquote \<noteq> CHR ''t''" "dquote \<noteq> CHR ''f''"
  "CHR ''['' \<noteq> dquote" "CHR ''{'' \<noteq> dquote" "dquote \<noteq> CHR ''}''"
  by (simp_all add: dquote_def)

lemma parse_members_stringify:
  assumes IH: "\<And>p m r. p \<in> set kvs \<Longrightarrow> jsize (snd p) < m \<Longrightarrow> \<not> starts_digit r \<Longrightarrow>
                 parse_value m (stringify (snd p) @ r) = Some (snd p, r)"
    and ne: "kvs \<noteq> []"
    and fuel: "sum_list (map (\<lambda>p. Suc (jsize (snd p))) kvs) < m"
  shows "parse_members m (join_with (CHR '','') (map (\<lambda>p. quote_str (fst p) @ CHR '':'' # stringify (snd p)) kvs)
           @ CHR ''}'' # rest) = Some (kvs, rest)"
  using assms
proof (induction kvs arbitrary: m)
  case Nil
  then show ?case by simp
next
  case (Cons p kvs)
  obtain k v where p: "p = (k, v)" by (cases p)
  from Cons.prems(3) obtain m' where m: "m = Suc m'" and fv: "jsize v < m'"
    using p by (cases m) auto
  let ?tail = "if kvs = [] then CHR ''}'' # rest
     else CHR '','' # join_with (CHR '','') (map (\<lambda>p. quote_str (fst p) @ CHR '':'' # stringify (snd p)) kvs) @ CHR ''}'' # rest"
  have str: "join_with (CHR '','') (map (\<lambda>p. quote_str (fst p) @ CHR '':'' # stringify (snd p)) (p # kvs)) @ CHR ''}'' # rest
      = dquote # concat (map esc_char k) @ dquote # CHR '':'' # stringify v @ ?tail"
    using p by (cases kvs) (simp_all add: quote_str_def)
  have tail_nd: "\<not> starts_digit ?tail" by simp
  have pv: "parse_value m' (stringify v @ ?tail) = Some (v, ?tail)"
    using Cons.prems(1) [of p m' ?tail] p fv tail_nd by simp
  show ?case
  proof (cases "kvs = []")
    case True
    with pv show ?thesis using str m p by (simp add: parse_str_quote_str_body)
  next
    case False
    have "parse_members m' (join_with (CHR '','') (map (\<lambda>p. quote_str (fst p) @ CHR '':'' # stringify (snd p)) kvs)
           @ CHR ''}'' # rest) = Some (kvs, rest)"
    proof (rule Cons.IH)
      show "\<And>p m r. p \<in> set kvs \<Longrightarrow> jsize (snd p) < m \<Longrightarrow> \<not> starts_digit r \<Longrightarrow>
              parse_value m (stringify (snd p) @ r) = Some (snd p, r)"
        using Cons.prems(1) by simp
      show "kvs \<noteq> []" by (rule False)
      show "sum_list (map (\<lambda>p. Suc (jsize (snd p))) kvs) < m'"
        using Cons.prems(3) m p by simp
    qed
    with pv False show ?thesis using str m p by (simp add: parse_str_quote_str_body cons_fst_def)
  qed
qed

lemma AList_update_fresh: "k \<notin> fst ` set al \<Longrightarrow> AList.update k v al = al @ [(k, v)]"
  by (induction al) auto

lemma build_obj_distinct_acc:
  "distinct (map fst (acc @ kvs)) \<Longrightarrow> foldl (\<lambda>acc p. AList.update (fst p) (snd p) acc) acc kvs = acc @ kvs"
proof (induction kvs arbitrary: acc)
  case Nil
  then show ?case by simp
next
  case (Cons p kvs)
  then have "AList.update (fst p) (snd p) acc = acc @ [p]"
    by (simp add: AList_update_fresh)
  with Cons show ?case by simp
qed

lemma build_obj_distinct: "distinct (map fst kvs) \<Longrightarrow> build_obj kvs = kvs"
  using build_obj_distinct_acc [of "[]" kvs] by (simp add: build_obj_def)

lemma parse_value_stringify:
  "wf_json v \<Longrightarrow> jsize v < n \<Longrightarrow> \<not> starts_digit rest \<Longrightarrow> parse_value n (stringify v @ rest) = Some (v, rest)"
proof (induction v arbitrary: n rest)
  case JNull
  then obtain n' where "n = Suc n'" by (cases n) auto
  then show ?case by (simp add: is_ws_def)
next
  case (JBool b)
  then obtain n' where "n = Suc n'" by (cases n) auto
  then show ?case by (cases b) (simp_all add: is_ws_def)
next
  case (JNum i)
  then obtain n' where n: "n = Suc n'" by (cases n) auto
  obtain c cs where ic: "int_to_dec i = c # cs" and c: "c = CHR ''-'' \<or> is_digit c"
    using int_to_dec_head [of i] by blast
  have nws: "\<not> is_ws c" using c is_digit_not_special [of c] by (auto simp: is_ws_def)
  have "c \<noteq> CHR ''n'' \<and> c \<noteq> CHR ''t'' \<and> c \<noteq> CHR ''f'' \<and> c \<noteq> dquote \<and> c \<noteq> CHR ''['' \<and> c \<noteq> CHR ''{''"
    using c is_digit_not_special [of c] by (auto simp: dquote_def)
  with nws n ic c show ?case
    using parse_num_int_to_dec [OF JNum.prems(3), of i] by auto
next
  case (JStr s)
  then obtain n' where "n = Suc n'" by (cases n) auto
  then show ?case by (simp add: quote_str_def parse_str_quote_str_body)
next
  case (JArr xs)
  then obtain n' where n: "n = Suc n'" and fuel: "sum_list (map (\<lambda>x. Suc (jsize x)) xs) < n'"
    by (cases n) auto
  show ?case
  proof (cases "xs = []")
    case True
    with n show ?thesis by simp
  next
    case False
    obtain c cs where hd: "join_with (CHR '','') (map stringify xs) @ CHR '']'' # rest = c # cs"
      and "\<not> is_ws c" "c \<noteq> CHR '']''"
      using join_stringify_head [OF False] by blast
    moreover have "parse_elems n' (join_with (CHR '','') (map stringify xs) @ CHR '']'' # rest) = Some (xs, rest)"
      using parse_elems_stringify [OF _ False fuel] JArr.IH JArr.prems(1) by (auto simp: list_all_iff)
    ultimately show ?thesis using n hd by simp
  qed
next
  case (JObj kvs)
  then obtain n' where n: "n = Suc n'" and fuel: "sum_list (map (\<lambda>p. Suc (jsize (snd p))) kvs) < n'"
    and dist: "distinct (map fst kvs)" and wf: "\<forall>p \<in> set kvs. wf_json (snd p)"
    by (cases n) (auto simp: list_all_iff)
  show ?case
  proof (cases "kvs = []")
    case True
    with n show ?thesis by simp
  next
    case False
    have "parse_members n' (join_with (CHR '','') (map (\<lambda>p. quote_str (fst p) @ CHR '':'' # stringify (snd p)) kvs)
           @ CHR ''}'' # rest) = Some (kvs, rest)"
    proof (rule parse_members_stringify [OF _ False fuel])
      fix p m r
      assume "p \<in> set kvs" "jsize (snd p) < m" "\<not> starts_digit r"
      with JObj.IH wf show "parse_value m (stringify (snd p) @ r) = Some (snd p, r)"
        by (metis prod.exhaust_sel snds.intros)
    qed
    moreover obtain q qs where "kvs = q # qs" using False by (cases kvs) auto
    then obtain cs where "join_with (CHR '','') (map (\<lambda>p. quote_str (fst p) @ CHR '':'' # stringify (snd p)) kvs)
           @ CHR ''}'' # rest = dquote # cs"
      by (cases qs) (simp_all add: quote_str_def)
    ultimately show ?thesis using n dist by (simp add: build_obj_distinct Let_def)
  qed
qed

subsection \<open>The round trip\<close>

lemma sum_length_le_join: "sum_list (map length xss) \<le> length (join_with sep xss)"
  by (induction sep xss rule: join_with.induct) auto

lemma stringify_ne: "stringify v \<noteq> []"
  using stringify_head [of v] by auto

lemma int_to_dec_ne [simp]: "int_to_dec i \<noteq> []"
  using int_to_dec_head [of i] by auto

lemma quote_str_ne [simp]: "quote_str s \<noteq> []"
  by (simp add: quote_str_def)

lemma jsize_lt_length: "jsize v < length (stringify v)"
proof (induction v)
  case (JArr xs)
  have "sum_list (map (\<lambda>x. Suc (jsize x)) xs) \<le> sum_list (map (\<lambda>x. length (stringify x)) xs)"
    using JArr.IH by (intro sum_list_mono) (simp add: Suc_le_eq)
  also have "\<dots> \<le> length (join_with (CHR '','') (map stringify xs))"
    using sum_length_le_join [of "map stringify xs" "CHR '',''"] by (simp add: comp_def)
  finally show ?case by simp
next
  case (JObj kvs)
  have "sum_list (map (\<lambda>p. Suc (jsize (snd p))) kvs)
      \<le> sum_list (map (\<lambda>p. length (quote_str (fst p) @ CHR '':'' # stringify (snd p))) kvs)"
  proof (intro sum_list_mono)
    fix p assume "p \<in> set kvs"
    with JObj.IH have "jsize (snd p) < length (stringify (snd p))"
      by (metis prod.exhaust_sel snds.intros)
    then show "Suc (jsize (snd p)) \<le> length (quote_str (fst p) @ CHR '':'' # stringify (snd p))"
      by simp
  qed
  also have "\<dots> \<le> length (join_with (CHR '','') (map (\<lambda>p. quote_str (fst p) @ CHR '':'' # stringify (snd p)) kvs))"
    using sum_length_le_join [of "map (\<lambda>p. quote_str (fst p) @ CHR '':'' # stringify (snd p)) kvs" "CHR '',''"]
    by (simp add: comp_def)
  finally show ?case by simp
qed simp_all

theorem json_parse_stringify: "wf_json v \<Longrightarrow> json_parse (stringify v) = Inr v"
proof -
  assume wf: "wf_json v"
  have fuel: "jsize v < 2 * length (stringify v) + 2" using jsize_lt_length [of v] by simp
  have nd: "\<not> starts_digit []" by (simp add: starts_digit_def)
  have "parse_value (2 * length (stringify v) + 2) (stringify v @ []) = Some (v, [])"
    by (rule parse_value_stringify [OF wf fuel nd])
  then show ?thesis by (simp add: json_parse_def)
qed

end
