(* ===== verification/Json_Parser.thy ===== *)
theory Json_Parser
  imports Json_Roundtrip
begin

text \<open>
  The fuelled \<open>JSON.parse\<close> of \<open>Json\<close>, as a recursive-descent parser: every call
  returns a strict suffix of its input; the fuel \<open>json_parse\<close> gives it,
  \<open>2 * length s + 2\<close>, is more than the \<open>2 * length s + 1\<close> past which more fuel never
  changes the answer, so \<open>SyntaxError\<close> always reports the syntax and never the fuel;
  and every value it returns is well formed, each object binding a key once.
\<close>

subsection \<open>Every call consumes input\<close>

lemma skip_ws_le: "length (skip_ws s) \<le> length s"
  by (induction s) auto

lemma skip_ws_Cons_less: "skip_ws s = c # r \<Longrightarrow> length r < length s"
  using skip_ws_le [of s] by simp

lemma cons_fst_Some: "cons_fst x r = Some (xs, rest) \<longleftrightarrow> (\<exists>ys. r = Some (ys, rest) \<and> xs = x # ys)"
  by (auto simp: cons_fst_def)

lemma parse_str_less: "parse_str s = Some (t, r) \<Longrightarrow> length r < length s"
proof (induction s arbitrary: t rule: parse_str.induct)
  case 1
  then show ?case by simp
next
  case (2 c cs)
  then show ?case
    by (fastforce simp: cons_fst_Some split: if_splits list.splits option.splits)
qed

lemma parse_nat_less: "parse_nat s = Some (n, r) \<Longrightarrow> length r < length s"
  by (auto simp: parse_nat_def length_dropWhile_le le_imp_less_Suc split: list.splits if_splits)

lemma parse_num_less: "parse_num s = Some (i, r) \<Longrightarrow> length r < length s"
  by (auto simp: parse_num_def dest!: parse_nat_less split: list.splits if_splits)

lemma parse_value_Suc_rest:
  assumes "skip_ws s = c # cs" "parse_value (Suc n) s = Some (v, r)"
  shows "r = drop 3 cs \<or> r = drop 4 cs \<or> (\<exists>t. parse_str cs = Some (t, r))
        \<or> r = tl (skip_ws cs) \<or> (\<exists>vs. parse_elems n cs = Some (vs, r))
        \<or> (\<exists>kvs. parse_members n cs = Some (kvs, r)) \<or> (\<exists>i. parse_num (c # cs) = Some (i, r))"
  using assms by (simp add: Let_def split: if_splits) blast+

lemma parse_elems_Suc_rest:
  assumes "parse_elems (Suc n) s = Some (vs, r)"
  shows "\<exists>v r0 c r'. parse_value n s = Some (v, r0) \<and> skip_ws r0 = c # r'
     \<and> ((r = r' \<and> vs = [v]) \<or> (\<exists>vs'. parse_elems n r' = Some (vs', r) \<and> vs = v # vs'))"
  using assms by (auto simp: cons_fst_Some split: option.splits list.splits if_splits)

lemma parse_members_Suc_rest:
  assumes "parse_members (Suc n) s = Some (kvs, r)"
  shows "\<exists>c r0 k r1 d r2 v r3 e r4. skip_ws s = c # r0 \<and> parse_str r0 = Some (k, r1)
     \<and> skip_ws r1 = d # r2 \<and> parse_value n r2 = Some (v, r3) \<and> skip_ws r3 = e # r4
     \<and> ((r = r4 \<and> kvs = [(k, v)]) \<or> (\<exists>kvs'. parse_members n r4 = Some (kvs', r) \<and> kvs = (k, v) # kvs'))"
  using assms by (auto simp: cons_fst_Some split: option.splits list.splits if_splits)

lemma parse_value_Suc_val:
  assumes "parse_value (Suc n) s = Some (v, r)"
  shows "wf_json v \<or> (\<exists>cs vs r'. parse_elems n cs = Some (vs, r') \<and> v = JArr vs)
     \<or> (\<exists>cs kvs r'. parse_members n cs = Some (kvs, r') \<and> v = JObj (build_obj kvs))"
proof (cases "skip_ws s")
  case Nil
  with assms show ?thesis by simp
next
  case (Cons c cs)
  with assms show ?thesis by (simp add: Let_def split: if_splits; force)
qed

lemma parse_less:
  "(\<forall>s v r. parse_value n s = Some (v, r) \<longrightarrow> length r < length s)
   \<and> (\<forall>s vs r. parse_elems n s = Some (vs, r) \<longrightarrow> length r < length s)
   \<and> (\<forall>s kvs r. parse_members n s = Some (kvs, r) \<longrightarrow> length r < length s)"
proof (induction n)
  case 0
  show ?case by simp
next
  case (Suc n)
  have IHv: "parse_value n s = Some (v, r) \<Longrightarrow> length r < length s" for s v r using Suc.IH by blast
  have IHe: "parse_elems n s = Some (vs, r) \<Longrightarrow> length r < length s" for s vs r using Suc.IH by blast
  have IHm: "parse_members n s = Some (kvs, r) \<Longrightarrow> length r < length s" for s kvs r using Suc.IH by blast
  have V: "length r < length s" if v: "parse_value (Suc n) s = Some (v, r)" for s v r
  proof (cases "skip_ws s")
    case Nil
    with v show ?thesis by simp
  next
    case (Cons c cs)
    then have l: "length cs < length s" by (rule skip_ws_Cons_less)
    from parse_value_Suc_rest [OF Cons v] have "length r < Suc (length cs)"
      by (elim disjE exE; insert skip_ws_le [of cs]; auto dest!: parse_str_less parse_num_less IHe IHm)
    with l show ?thesis by simp
  qed
  have E: "length r < length s" if "parse_elems (Suc n) s = Some (vs, r)" for s vs r
    using parse_elems_Suc_rest [OF that]
    by (elim exE conjE disjE) (auto dest!: IHv IHe skip_ws_Cons_less)
  have M: "length r < length s" if "parse_members (Suc n) s = Some (kvs, r)" for s kvs r
    using parse_members_Suc_rest [OF that]
    by (elim exE conjE disjE) (auto dest!: IHv IHm skip_ws_Cons_less parse_str_less)
  from V E M show ?case by blast
qed

lemma parse_value_less: "parse_value n s = Some (v, r) \<Longrightarrow> length r < length s"
  using parse_less by blast

lemma parse_fuel_step:
  "(\<forall>s. 2 * length s + 1 \<le> n \<longrightarrow> parse_value (Suc n) s = parse_value n s)
   \<and> (\<forall>s. 2 * length s + 2 \<le> n \<longrightarrow> parse_elems (Suc n) s = parse_elems n s)
   \<and> (\<forall>s. 2 * length s + 2 \<le> n \<longrightarrow> parse_members (Suc n) s = parse_members n s)"
proof (induction n)
  case 0
  show ?case by simp
next
  case (Suc n)
  have IHv: "2 * length s + 1 \<le> n \<Longrightarrow> parse_value (Suc n) s = parse_value n s" for s using Suc.IH by blast
  have IHe: "2 * length s + 2 \<le> n \<Longrightarrow> parse_elems (Suc n) s = parse_elems n s" for s using Suc.IH by blast
  have IHm: "2 * length s + 2 \<le> n \<Longrightarrow> parse_members (Suc n) s = parse_members n s" for s using Suc.IH by blast
  have V: "parse_value (Suc (Suc n)) s = parse_value (Suc n) s" if n: "2 * length s + 1 \<le> Suc n" for s
  proof (cases "skip_ws s")
    case Nil
    then show ?thesis by simp
  next
    case (Cons c cs)
    then have "length cs < length s" by (rule skip_ws_Cons_less)
    with n have "2 * length cs + 2 \<le> n" by simp
    then have e: "parse_elems (Suc n) cs = parse_elems n cs" and m: "parse_members (Suc n) cs = parse_members n cs"
      by (rule IHe, rule IHm)
    show ?thesis by (simp only: parse_value.simps(2) Cons list.case e m)
  qed
  have E: "parse_elems (Suc (Suc n)) s = parse_elems (Suc n) s" if n: "2 * length s + 2 \<le> Suc n" for s
  proof -
    from n have v: "parse_value (Suc n) s = parse_value n s" by (intro IHv) simp
    show ?thesis
    proof (cases "parse_value n s")
      case None
      then show ?thesis by (simp only: parse_elems.simps(2) [of "Suc n" s] parse_elems.simps(2) [of n s] v option.case)
    next
      case (Some p)
      obtain x r where p: "p = (x, r)" by (cases p)
      show ?thesis
      proof (cases "skip_ws r")
        case Nil
        then show ?thesis by (simp only: parse_elems.simps(2) [of "Suc n" s] parse_elems.simps(2) [of n s] v Some p option.case prod.case list.case)
      next
        case (Cons c r')
        from Some p Cons have "length r' < length r" "length r < length s"
          by (blast dest: skip_ws_Cons_less parse_value_less)+
        with n have "2 * length r' + 2 \<le> n" by simp
        then have e: "parse_elems (Suc n) r' = parse_elems n r'" by (rule IHe)
        show ?thesis by (simp only: parse_elems.simps(2) [of "Suc n" s] parse_elems.simps(2) [of n s] v Some p Cons option.case prod.case list.case e)
      qed
    qed
  qed
  have M: "parse_members (Suc (Suc n)) s = parse_members (Suc n) s" if n: "2 * length s + 2 \<le> Suc n" for s
  proof (cases "skip_ws s")
    case Nil
    then show ?thesis by (simp only: parse_members.simps(2) [of "Suc n" s] parse_members.simps(2) [of n s] list.case)
  next
    case (Cons c r0)
    show ?thesis
    proof (cases "parse_str r0")
      case None
      then show ?thesis by (simp only: parse_members.simps(2) [of "Suc n" s] parse_members.simps(2) [of n s] Cons list.case option.case)
    next
      case (Some q)
      obtain k r1 where q: "q = (k, r1)" by (cases q)
      show ?thesis
      proof (cases "skip_ws r1")
        case Nil
        then show ?thesis by (simp only: parse_members.simps(2) [of "Suc n" s] parse_members.simps(2) [of n s] Cons Some q list.case option.case prod.case)
      next
        case (Cons d r2)
        note c0 = \<open>skip_ws s = c # r0\<close>
        from c0 Some q Cons have l2: "length r2 < length s"
          by (blast dest: skip_ws_Cons_less parse_str_less intro: less_trans)
        with n have "2 * length r2 + 1 \<le> n" by simp
        then have v: "parse_value (Suc n) r2 = parse_value n r2" by (rule IHv)
        show ?thesis
        proof (cases "parse_value n r2")
          case None
          then show ?thesis
            by (simp only: parse_members.simps(2) [of "Suc n" s] parse_members.simps(2) [of n s] c0 \<open>parse_str r0 = Some q\<close> q Cons v list.case option.case prod.case)
        next
          case (Some w)
          obtain x r3 where w: "w = (x, r3)" by (cases w)
          show ?thesis
          proof (cases "skip_ws r3")
            case Nil
            then show ?thesis
              by (simp only: parse_members.simps(2) [of "Suc n" s] parse_members.simps(2) [of n s] c0 \<open>parse_str r0 = Some q\<close> q \<open>skip_ws r1 = d # r2\<close> v Some w
                  list.case option.case prod.case)
          next
            case (Cons e r4)
            from Some w Cons l2 have "length r4 < length s"
              by (blast dest: skip_ws_Cons_less parse_value_less intro: less_trans)
            with n have "2 * length r4 + 2 \<le> n" by simp
            then have m: "parse_members (Suc n) r4 = parse_members n r4" by (rule IHm)
            show ?thesis
              by (simp only: parse_members.simps(2) [of "Suc n" s] parse_members.simps(2) [of n s] c0 \<open>parse_str r0 = Some q\<close> q \<open>skip_ws r1 = d # r2\<close> v Some w Cons
                  list.case option.case prod.case m)
          qed
        qed
      qed
    qed
  qed
  from V E M show ?case by blast
qed

subsection \<open>Well-formed results\<close>

lemma set_AList_update: "set (AList.update k v al) \<subseteq> insert (k, v) (set al)"
  by (induction al) auto

lemma build_obj_acc:
  assumes "list_all (\<lambda>p. wf_json (snd p)) (acc @ kvs)" "distinct (map fst acc)"
  shows "list_all (\<lambda>p. wf_json (snd p)) (foldl (\<lambda>acc p. AList.update (fst p) (snd p) acc) acc kvs)
       \<and> distinct (map fst (foldl (\<lambda>acc p. AList.update (fst p) (snd p) acc) acc kvs))"
  using assms
proof (induction kvs arbitrary: acc)
  case Nil
  then show ?case by simp
next
  case (Cons p kvs)
  have "list_all (\<lambda>p. wf_json (snd p)) (AList.update (fst p) (snd p) acc @ kvs)"
    using Cons.prems(1) set_AList_update [of "fst p" "snd p" acc] by (auto simp: list_all_iff)
  moreover have "distinct (map fst (AList.update (fst p) (snd p) acc))"
    using Cons.prems(2) by (simp add: distinct_update)
  ultimately show ?case using Cons.IH by simp
qed

lemma build_obj_wf: "list_all (\<lambda>p. wf_json (snd p)) kvs \<Longrightarrow> wf_json (JObj (build_obj kvs))"
  using build_obj_acc [of "[]" kvs] by (simp add: build_obj_def list_all_iff)

lemma parse_wf:
  "(\<forall>s v r. parse_value n s = Some (v, r) \<longrightarrow> wf_json v)
   \<and> (\<forall>s vs r. parse_elems n s = Some (vs, r) \<longrightarrow> list_all wf_json vs)
   \<and> (\<forall>s kvs r. parse_members n s = Some (kvs, r) \<longrightarrow> list_all (\<lambda>p. wf_json (snd p)) kvs)"
proof (induction n)
  case 0
  show ?case by simp
next
  case (Suc n)
  have IHv: "parse_value n s = Some (v, r) \<Longrightarrow> wf_json v" for s v r using Suc.IH by blast
  have IHe: "parse_elems n s = Some (vs, r) \<Longrightarrow> list_all wf_json vs" for s vs r using Suc.IH by blast
  have IHm: "parse_members n s = Some (kvs, r) \<Longrightarrow> list_all (\<lambda>p. wf_json (snd p)) kvs" for s kvs r
    using Suc.IH by blast
  have V: "wf_json v" if "parse_value (Suc n) s = Some (v, r)" for s v r
    using parse_value_Suc_val [OF that] by (auto dest: IHe IHm intro: build_obj_wf)
  have E: "list_all wf_json vs" if "parse_elems (Suc n) s = Some (vs, r)" for s vs r
    using parse_elems_Suc_rest [OF that] by (auto dest: IHv IHe)
  have M: "list_all (\<lambda>p. wf_json (snd p)) kvs" if "parse_members (Suc n) s = Some (kvs, r)" for s kvs r
    using parse_members_Suc_rest [OF that] by (auto dest: IHv IHm)
  from V E M show ?case by blast
qed

subsection \<open>Enough fuel\<close>

lemma parse_value_fuel:
  "2 * length s + 1 \<le> n \<Longrightarrow> parse_value n s = parse_value (2 * length s + 1) s"
proof (induction n rule: dec_induct)
  case base
  show ?case ..
next
  case (step m)
  from step.hyps(1) have "parse_value (Suc m) s = parse_value m s" using parse_fuel_step by blast
  with step.IH show ?case by simp
qed

lemma json_parse_fuel:
  assumes "2 * length s + 1 \<le> n"
  shows "json_parse s = (case parse_value n s of
      None \<Rightarrow> Inl SyntaxError
    | Some (v, rest) \<Rightarrow> if skip_ws rest = [] then Inr v else Inl SyntaxError)"
proof -
  have "parse_value (2 * length s + 2) s = parse_value n s"
    using parse_value_fuel [of s "2 * length s + 2"] parse_value_fuel [OF assms] by simp
  then show ?thesis by (simp add: json_parse_def)
qed

lemma json_parse_wf:
  assumes "json_parse s = Inr v"
  shows "wf_json v"
proof -
  from assms obtain rest where "parse_value (2 * length s + 2) s = Some (v, rest)"
    by (auto simp: json_parse_def simp del: parse_value.simps split: option.splits if_splits)
  then show ?thesis using parse_wf by blast
qed

end
