(* ===== verification/Session_Spec.thy ===== *)
theory Session_Spec
  imports Auth_Service Json_Roundtrip
begin

text \<open>
  The Session Store of the design document (section 4.1) as an abstract interface: a
  session is a token and a profile or absent; \<open>save\<close> sets it, \<open>clear\<close> removes it,
  \<open>read\<close> and \<open>isPresent\<close> observe it. The code implements \<open>save\<close> by the session
  write of \<open>loginUser\<close> (\<open>store_session\<close>, for a response carrying the token and the
  profile), \<open>clear\<close> by \<open>logoutUser\<close>, the observations by \<open>isAuthenticated\<close> and
  \<open>getCurrentUser\<close>. \<open>abs_session\<close> reads the abstract session off the storage, and
  \<open>session_inv\<close> is the invariant under which the code refines the interface: readable
  storage, both keys or neither, a non-empty token and a profile text that parses.
\<close>

type_synonym session = "string \<times> json"

datatype session_op = Save string json | Clear

fun spec_apply :: "session_op \<Rightarrow> session option \<Rightarrow> session option" where
  "spec_apply (Save t u) s = Some (t, u)"
| "spec_apply Clear s = None"

definition spec_present :: "session option \<Rightarrow> bool" where
  "spec_present s \<longleftrightarrow> s \<noteq> None"

definition spec_user :: "session option \<Rightarrow> json" where
  "spec_user s = (case s of None \<Rightarrow> JNull | Some (t, u) \<Rightarrow> u)"

fun op_ok :: "session_op \<Rightarrow> bool" where
  "op_ok (Save t u) \<longleftrightarrow> t \<noteq> [] \<and> wf_json u"
| "op_ok Clear \<longleftrightarrow> True"

fun session_exec :: "session_op \<Rightarrow> (exn, storage, unit) est" where
  "session_exec (Save t u) = store_session (JObj [(''token'', JStr t), (''user'', u)]) (Some (JStr t))"
| "session_exec Clear = emap_err JsError logoutUser"

fun session_run :: "session_op list \<Rightarrow> (exn, storage, unit) est" where
  "session_run [] = ereturn ()"
| "session_run (op # ops) = ebind (session_exec op) (\<lambda>_. session_run ops)"

definition parses :: "string \<Rightarrow> bool" where
  "parses s \<longleftrightarrow> (case json_parse s of Inr v \<Rightarrow> True | Inl e \<Rightarrow> False)"

definition abs_session :: "storage \<Rightarrow> session option" where
  "abs_session st = (case (store_map st ''token'', store_map st ''user'') of
      (Some t, Some u) \<Rightarrow> (case json_parse u of Inr v \<Rightarrow> Some (t, v) | Inl e \<Rightarrow> None)
    | _ \<Rightarrow> None)"

definition session_inv :: "storage \<Rightarrow> bool" where
  "session_inv st \<longleftrightarrow> available st \<and> (case (store_map st ''token'', store_map st ''user'') of
      (None, None) \<Rightarrow> True
    | (Some t, Some u) \<Rightarrow> t \<noteq> [] \<and> parses u
    | _ \<Rightarrow> False)"

subsection \<open>Refinement, operation by operation and over runs\<close>

lemma store_session_save:
  assumes "t \<noteq> []" "store_session (JObj [(''token'', JStr t), (''user'', u)]) (Some (JStr t)) st = (Inr (), st')"
  shows "st' = st\<lparr>items := AList.update ''user'' (stringify u) (AList.update ''token'' t (items st))\<rparr>"
  using assms
  by (auto simp: store_session_def truthy_val_def js_str_def json_stringify_def ebind_def emap_err_def
      setItem_cases split: if_splits)

lemma session_exec_refines:
  assumes "session_inv st" "op_ok op" "session_exec op st = (Inr (), st')"
  shows "session_inv st' \<and> abs_session st' = spec_apply op (abs_session st)"
proof (cases op)
  case (Save t u)
  with assms have st': "st' = st\<lparr>items := AList.update ''user'' (stringify u) (AList.update ''token'' t (items st))\<rparr>"
    by (auto intro: store_session_save)
  from Save assms(2) have "t \<noteq> []" "json_parse (stringify u) = Inr u" by (simp_all add: json_parse_stringify)
  with st' Save assms(1) show ?thesis
    by (simp add: session_inv_def abs_session_def parses_def store_map_def prelude_simps)
next
  case Clear
  from assms(1) have "available st" by (simp add: session_inv_def)
  with Clear assms(3) have "st' = st\<lparr>items := AList.delete ''user'' (AList.delete ''token'' (items st))\<rparr>"
    by (simp add: logoutUser_available emap_err_def)
  with Clear \<open>available st\<close> show ?thesis
    by (simp add: session_inv_def abs_session_def store_map_def prelude_simps)
qed

lemma json_parse_Nil: "json_parse [] = Inl SyntaxError"
  by (simp add: json_parse_def)

lemma session_reads_refine:
  assumes "session_inv st"
  shows "fst (isAuthenticated st) = Inr (spec_present (abs_session st))
       \<and> fst (getCurrentUser st) = Inr (spec_user (abs_session st))"
  using assms
  by (auto simp: session_inv_def abs_session_def parses_def spec_present_def spec_user_def store_map_def
      isAuthenticated_items getCurrentUser_items json_parse_Nil split: option.splits sum.splits)

lemma session_run_refines:
  assumes "session_inv st" "list_all op_ok ops" "session_run ops st = (Inr (), st')"
  shows "session_inv st' \<and> abs_session st' = fold spec_apply ops (abs_session st)"
  using assms
proof (induction ops arbitrary: st)
  case Nil
  then show ?case by (simp add: ereturn_def)
next
  case (Cons op ops)
  from Cons.prems(3) obtain s1 where e: "session_exec op st = (Inr (), s1)" and r: "session_run ops s1 = (Inr (), st')"
    by (auto elim: ebind_InrD)
  from session_exec_refines [OF Cons.prems(1) _ e] Cons.prems(2)
  have "session_inv s1" "abs_session s1 = spec_apply op (abs_session st)" by simp_all
  with Cons.IH [OF _ _ r] Cons.prems(2) show ?case by simp
qed

text \<open>
  C25. The storage code refines the design document's Session Store: from a storage
  holding a consistent session (or none), any sequence of session writes
  (\<open>store_session\<close> for a response with a non-empty string token and a well-formed
  profile) and \<open>logoutUser\<close> calls that succeeds leaves a storage in which
  \<open>isAuthenticated()\<close> is the abstract \<open>isPresent()\<close> and \<open>getCurrentUser()\<close> the user
  of the abstract \<open>read()\<close>, after the same sequence of \<open>save\<close> and \<open>clear\<close>.
\<close>

theorem session_store_refines_spec:
  assumes "session_inv st" "list_all op_ok ops" "session_run ops st = (Inr (), st')"
  shows "fst (isAuthenticated st') = Inr (spec_present (fold spec_apply ops (abs_session st)))
       \<and> fst (getCurrentUser st') = Inr (spec_user (fold spec_apply ops (abs_session st)))"
  using session_run_refines [OF assms] session_reads_refine by metis

theorem session_store_refines_spec_witness:
  "fst (isAuthenticated \<lparr>items = [(''token'', ''t2''), (''user'', ''{\"fullName\":\"B\"}'')], quota = 100, available = True\<rparr>)
     = Inr (spec_present (fold spec_apply [Save ''t1'' (JObj [(''fullName'', JStr ''A'')]), Clear,
                                          Save ''t2'' (JObj [(''fullName'', JStr ''B'')])] None))
   \<and> fst (getCurrentUser \<lparr>items = [(''token'', ''t2''), (''user'', ''{\"fullName\":\"B\"}'')], quota = 100, available = True\<rparr>)
     = Inr (spec_user (fold spec_apply [Save ''t1'' (JObj [(''fullName'', JStr ''A'')]), Clear,
                                        Save ''t2'' (JObj [(''fullName'', JStr ''B'')])] None))"
proof -
  have i: "session_inv (empty_storage 100)" by (simp add: session_inv_def empty_storage_def store_map_def)
  have a: "abs_session (empty_storage 100) = None" by (simp add: abs_session_def empty_storage_def store_map_def)
  have r: "session_run [Save ''t1'' (JObj [(''fullName'', JStr ''A'')]), Clear, Save ''t2'' (JObj [(''fullName'', JStr ''B'')])]
       (empty_storage 100) = (Inr (), \<lparr>items = [(''token'', ''t2''), (''user'', ''{\"fullName\":\"B\"}'')], quota = 100, available = True\<rparr>)"
    by code_simp
  show ?thesis using session_store_refines_spec [OF i _ r] a by simp
qed

end
