(* ===== verification/Login_Async.thy ===== *)
theory Login_Async
  imports Auth_Service
begin

text \<open>
  \<open>loginUser\<close> as the asynchronous function it is (\<open>src/services/authService.js\<close>,
  lines 20 to 37): \<open>await api.post(...)\<close> splits it into the request, built and sent
  from the storage as it is when the call starts (\<open>login_send\<close>, lines 22 to 25), and
  the continuation that runs when the response arrives (\<open>login_resume\<close>, lines 26
  to 36, inside the same \<open>try\<close>), against the storage as it is then. Other events
  (a logout, another login) can run in between; the theorems here say what the split
  preserves and what such an interleaving does.
\<close>

definition login_send :: "server \<Rightarrow> jsval \<Rightarrow> (exn, storage, json) est" where
  "login_send srv credentials =
     ebind (jget credentials ''email'') (\<lambda>email.
     ebind (jget credentials ''password'') (\<lambda>password.
     api_post srv ''/auth/login'' (obj_lit [(''email'', email), (''password'', password)])))"

definition login_resume :: "exn + json \<Rightarrow> (json, storage, json) est" where
  "login_resume response = service_catch ''Login failed''
     (ebind (elift response) (\<lambda>data.
      ebind (jget (Some data) ''token'') (\<lambda>token.
      ebind (store_session data token) (\<lambda>_.
      ereturn data))))"

subsection \<open>The two halves\<close>

lemma login_send_read_only [prelude_simps]: "read_only (login_send srv c)"
  by (simp add: login_send_def api_post_def read_only_ebind prelude_simps)

text \<open>
  The split is faithful: \<open>loginUser\<close> is its two halves run back to back: the request, built from the
  credentials and the storage when the call starts, and the continuation after
  \<open>await\<close>, which handles the outcome against the storage when it arrives. With
  nothing in between, the two give exactly \<open>loginUser\<close>.
\<close>

lemma loginUser_split:
  "loginUser srv c st = login_resume (fst (login_send srv c st)) st"
proof -
  have "loginUser srv c = service_catch ''Login failed''
     (ebind (login_send srv c) (\<lambda>data.
      ebind (jget (Some data) ''token'') (\<lambda>token.
      ebind (store_session data token) (\<lambda>_. ereturn data))))"
    by (simp add: loginUser_def login_send_def ebind_assoc)
  then show ?thesis
    by (simp add: login_resume_def service_catch_def ecatch_def
        ebind_read_only_elift [OF login_send_read_only, of srv c _ st])
qed

lemma login_send_obj:
  "available st \<Longrightarrow> fst (login_send srv (Some (JObj kvs)) st) = http_outcome (srv (login_request kvs st))"
  by (simp add: login_send_def api_post_def ebind_def api_request_available login_request_def)

lemma login_resume_accepted:
  assumes "available st" "map_of (rev dkvs) ''token'' = Some tok" "truthy tok"
    and "usage (AList.update ''token'' (js_to_string tok) (items st)) \<le> quota st"
    and "usage (AList.update ''user'' (js_str (json_stringify (map_of (rev dkvs) ''user'')))
               (AList.update ''token'' (js_to_string tok) (items st))) \<le> quota st"
  shows "login_resume (Inr (JObj dkvs)) st =
     (Inr (JObj dkvs), st\<lparr>items := AList.update ''user'' (js_str (json_stringify (map_of (rev dkvs) ''user'')))
                                (AList.update ''token'' (js_to_string tok) (items st))\<rparr>)"
proof -
  have "store_session (JObj dkvs) (Some tok) st =
     (Inr (), st\<lparr>items := AList.update ''user'' (js_str (json_stringify (map_of (rev dkvs) ''user'')))
                                (AList.update ''token'' (js_to_string tok) (items st))\<rparr>)"
    using store_session_written [of st "Some tok" dkvs] assms by (simp add: truthy_val_def js_str_def)
  with assms(2) show ?thesis
    by (simp add: login_resume_def ebind_def elift_def ereturn_def service_catch_def ecatch_def)
qed

text \<open>
  C26. A logout while a login request is in flight does not end the session: the user
  is logged out in between, but when the accepted response arrives, the continuation
  of \<open>loginUser\<close> writes the session into the cleared storage and the user is
  authenticated again. Nothing cancels the pending continuation.
\<close>

theorem logout_during_login_restores_session:
  assumes "available st"
    and "srv (login_request kvs st) = Response status (JObj dkvs)" "200 \<le> status" "status < 300"
    and "map_of (rev dkvs) ''token'' = Some tok" "truthy tok" "js_to_string tok \<noteq> []"
    and "usage (AList.update ''token'' (js_to_string tok) (items (snd (logoutUser st)))) \<le> quota st"
    and "usage (AList.update ''user'' (js_str (json_stringify (map_of (rev dkvs) ''user'')))
               (AList.update ''token'' (js_to_string tok) (items (snd (logoutUser st))))) \<le> quota st"
  shows "fst (isAuthenticated (snd (logoutUser st))) = Inr False
       \<and> fst (isAuthenticated (snd (login_resume (fst (login_send srv (Some (JObj kvs)) st)) (snd (logoutUser st))))) = Inr True"
proof -
  let ?st1 = "snd (logoutUser st)"
  have st1: "available ?st1" "quota ?st1 = quota st" "\<not> token_present ?st1"
    using assms(1) by (simp_all add: logoutUser_available token_present_def store_map_def prelude_simps)
  have send: "fst (login_send srv (Some (JObj kvs)) st) = Inr (JObj dkvs)"
    using assms(1-4) by (simp add: login_send_obj http_outcome_def)
  have "login_resume (Inr (JObj dkvs)) ?st1 =
     (Inr (JObj dkvs), ?st1\<lparr>items := AList.update ''user'' (js_str (json_stringify (map_of (rev dkvs) ''user'')))
                                (AList.update ''token'' (js_to_string tok) (items ?st1))\<rparr>)"
    using assms(5,6,8,9) st1 by (intro login_resume_accepted) simp_all
  with send st1 assms(7) show ?thesis
    by (simp add: isAuthenticated_result token_present_def store_map_def prelude_simps)
qed

theorem logout_during_login_restores_session_witness:
  "fst (isAuthenticated (snd (logoutUser \<lparr>items = [(''token'', ''t0''), (''user'', ''{}'')], quota = 100, available = True\<rparr>))) = Inr False
   \<and> fst (isAuthenticated (snd (login_resume
        (fst (login_send (\<lambda>r. Response 200 (JObj [(''token'', JStr ''t1''), (''user'', JObj [])])) (Some (JObj []))
                \<lparr>items = [(''token'', ''t0''), (''user'', ''{}'')], quota = 100, available = True\<rparr>))
        (snd (logoutUser \<lparr>items = [(''token'', ''t0''), (''user'', ''{}'')], quota = 100, available = True\<rparr>))))) = Inr True"
  by (rule logout_during_login_restores_session [where status = 200 and tok = "JStr ''t1''"])
     (simp add: logoutUser_available | code_simp)+

subsection \<open>Two logins in flight\<close>

lemma store_session_token:
  assumes "truthy_val token" "store_session data token s = (Inr u, s')"
  shows "store_map s' ''token'' = Some (js_str token)"
proof -
  from assms have "ebind (emap_err JsError (setItem ''token'' (js_str token))) (\<lambda>_.
        ebind (jget (Some data) ''user'') (\<lambda>user.
        emap_err JsError (setItem ''user'' (js_str (json_stringify user))))) s = (Inr u, s')"
    by (simp add: store_session_def)
  then obtain a s1 where e1: "emap_err JsError (setItem ''token'' (js_str token)) s = (Inr a, s1)"
    and e2: "ebind (jget (Some data) ''user'') (\<lambda>user. emap_err JsError (setItem ''user'' (js_str (json_stringify user)))) s1 = (Inr u, s')"
    by (rule ebind_InrD)
  from e2 obtain user where "emap_err JsError (setItem ''user'' (js_str (json_stringify user))) s1 = (Inr u, s')"
    by (rule ebind_read_only_InrD) (rule jget_read_only)
  then have s': "s' = s1\<lparr>items := AList.update ''user'' (js_str (json_stringify user)) (items s1)\<rparr>"
    by (blast dest: emap_err_InrD setItem_InrD)
  from e1 have "s1 = s\<lparr>items := AList.update ''token'' (js_str token) (items s)\<rparr>"
    by (blast dest: emap_err_InrD setItem_InrD)
  with s' show ?thesis by (simp add: store_map_def prelude_simps)
qed

lemma login_resume_token:
  assumes "login_resume (Inr (JObj dkvs)) s = (Inr d, s')" "map_of (rev dkvs) ''token'' = Some tok" "truthy tok"
  shows "store_map s' ''token'' = Some (js_to_string tok)"
proof -
  from assms(1) have "ebind (elift (Inr (JObj dkvs))) (\<lambda>data. ebind (jget (Some data) ''token'') (\<lambda>token.
      ebind (store_session data token) (\<lambda>_. ereturn data))) s = (Inr d, s')"
    unfolding login_resume_def by (rule service_catch_InrD)
  then have "ebind (jget (Some (JObj dkvs)) ''token'') (\<lambda>token.
      ebind (store_session (JObj dkvs) token) (\<lambda>_. ereturn (JObj dkvs))) s = (Inr d, s')"
    by (simp add: elift_def ebind_def)
  with assms(2) obtain u where "store_session (JObj dkvs) (Some tok) s = (Inr u, s')"
    by (auto simp: ebind_def ereturn_def split: prod.splits sum.splits)
  with assms(3) show ?thesis using store_session_token [of "Some tok"] by (simp add: truthy_val_def js_str_def)
qed

text \<open>
  C28. Two logins in flight are settled by the order of their responses, not of their
  requests: whatever the later request's continuation wrote, when the earlier request's
  accepted response arrives after it, the session left behind holds the earlier
  request's token.
\<close>

theorem out_of_order_logins_keep_stale_token:
  assumes "available st"
    and "srvA (login_request kvsA st) = Response sA (JObj dA)" "200 \<le> sA" "sA < 300"
    and "map_of (rev dA) ''token'' = Some tokA" "truthy tokA"
    and "login_resume (fst (login_send srvB (Some (JObj kvsB)) st)) st = (Inr rB, st1)"
    and "login_resume (fst (login_send srvA (Some (JObj kvsA)) st)) st1 = (Inr rA, st2)"
  shows "store_map st2 ''token'' = Some (js_to_string tokA)"
proof -
  have "fst (login_send srvA (Some (JObj kvsA)) st) = Inr (JObj dA)"
    using assms(1-4) by (simp add: login_send_obj http_outcome_def)
  with assms(8) have "login_resume (Inr (JObj dA)) st1 = (Inr rA, st2)" by simp
  then show ?thesis using assms(5,6) by (rule login_resume_token)
qed

theorem out_of_order_logins_keep_stale_token_witness:
  "store_map (snd (login_resume
      (fst (login_send (\<lambda>r. Response 200 (JObj [(''token'', JStr ''old''), (''user'', JObj [])])) (Some (JObj [])) (empty_storage 100)))
      (snd (login_resume
        (fst (login_send (\<lambda>r. Response 200 (JObj [(''token'', JStr ''new''), (''user'', JObj [])])) (Some (JObj [])) (empty_storage 100)))
        (empty_storage 100))))) ''token''
   = Some (js_to_string (JStr ''old''))"
proof -
  let ?A = "\<lambda>r::request. Response 200 (JObj [(''token'', JStr ''old''), (''user'', JObj [])])"
  let ?B = "\<lambda>r::request. Response 200 (JObj [(''token'', JStr ''new''), (''user'', JObj [])])"
  have b: "login_resume (fst (login_send ?B (Some (JObj [])) (empty_storage 100))) (empty_storage 100)
      = (Inr (JObj [(''token'', JStr ''new''), (''user'', JObj [])]),
         \<lparr>items = [(''token'', ''new''), (''user'', ''{}'')], quota = 100, available = True\<rparr>)"
    by code_simp
  have a: "login_resume (fst (login_send ?A (Some (JObj [])) (empty_storage 100)))
        \<lparr>items = [(''token'', ''new''), (''user'', ''{}'')], quota = 100, available = True\<rparr>
      = (Inr (JObj [(''token'', JStr ''old''), (''user'', JObj [])]),
         \<lparr>items = [(''token'', ''old''), (''user'', ''{}'')], quota = 100, available = True\<rparr>)"
    by code_simp
  have "store_map \<lparr>items = [(''token'', ''old''), (''user'', ''{}'')], quota = 100, available = True\<rparr> ''token''
      = Some (js_to_string (JStr ''old''))"
    by (rule out_of_order_logins_keep_stale_token [where srvB = ?B and kvsB = "[]"
          and srvA = ?A and kvsA = "[]" and sA = 200 and dA = "[(''token'', JStr ''old''), (''user'', JObj [])]", OF _ _ _ _ _ _ b a])
       (simp_all add: empty_storage_def)
  with a b show ?thesis by simp
qed

end
