(* ===== verification/Spec2Isabelle.thy ===== *)
theory Spec2Isabelle
  imports Navigation Loan_Service Json_Parser Session_Spec Login_Async
begin

text \<open>
  A verification library for the loan application client: the browser code under
  \<open>src/\<close> that registers and logs users in, keeps their session in \<open>localStorage\<close>,
  guards the loan form behind that session and submits loan applications. The four
  source files are \<open>src/App.jsx\<close> (the routes), \<open>src/components/ProtectedRoute.jsx\<close>
  (the guard), \<open>src/services/authService.js\<close> (session and authentication calls) and
  \<open>src/services/loanService.js\<close> (loan calls). The services call an HTTP client and
  the storage; the guard calls \<open>isAuthenticated\<close>; the routes render the guard; the
  pages (not among the sources) call the services between navigations.

  \<^bold>\<open>Parts of the program and their theories.\<close>
  \<^item> \<open>Prelude\<close>: the runtime's exceptions (\<open>js_error\<close>); the state-and-exception
    computations \<open>('e, 's, 'a) est\<close> with \<open>ebind\<close>, \<open>ecatch\<close>, \<open>emap_err\<close>, in which
    every operation that reads or writes the storage and may throw is written;
    \<open>read_only\<close> (a computation leaves the state unchanged), with the rule collection
    \<open>prelude_simps\<close> that carries it through a composed service; association-list
    lemmas.
  \<^item> \<open>Json\<close>: JavaScript values (\<open>json\<close>, \<open>undefined\<close> as \<open>None\<close>), truthiness,
    \<open>ToString\<close>, property reads, object literals, \<open>JSON.stringify\<close> and
    \<open>JSON.parse\<close> as a recursive-descent parser with fuel.
  \<^item> \<open>Json_Roundtrip\<close>: \<open>JSON.parse (JSON.stringify v) = v\<close> for well-formed values.
  \<^item> \<open>Json_Parser\<close>: lemmas on the parser model itself, which justify its fuel:
    every call consumes input, and from \<open>2 * length + 1\<close> on more fuel never changes
    the answer (the parser is given \<open>2 * length + 2\<close>, so a \<open>SyntaxError\<close> is never a
    fuel artefact); every parsed value is well formed.
  \<^item> \<open>Local_Storage\<close>: the Web Storage object (entries in insertion order, a quota
    counted in characters, availability) with \<open>getItem\<close>, \<open>setItem\<close>, \<open>removeItem\<close>.
  \<^item> \<open>Api_Client\<close>: \<open>src/services/api.js\<close>, not among the sources and modelled from
    the design document: the bearer token read from storage, the rejection of
    non-\<open>2xx\<close> and absent responses. The server is an input (a function from requests
    to responses), so the theorems hold for every server.
  \<^item> \<open>Service_Errors\<close>: the \<open>catch\<close> clause shared by all services
    (\<open>error.response?.data || {message}\<close>) and the outcome of a service around one
    request.
  \<^item> \<open>Auth_Service\<close>: \<open>registerUser\<close>, \<open>loginUser\<close> (its session write, lines 28 to
    31, as \<open>store_session\<close>), \<open>logoutUser\<close>, \<open>getCurrentUser\<close>,
    \<open>isAuthenticated\<close>; claims C3 to C8 and C22 to C24.
  \<^item> \<open>Loan_Service\<close>: \<open>submitLoanApplication\<close>, \<open>getUserLoans\<close>,
    \<open>getLoanDetails\<close>; claims C15 to C18.
  \<^item> \<open>Protected_Route\<close>: the guard and the guard contract of the design document
    it refines (C1).
  \<^item> \<open>App_Routes\<close>: the route table of \<open>App.jsx\<close>, first-match selection with React
    Router's case-insensitive, trailing-slash-tolerant matching, and the render of an
    element (the guarded one through \<open>ProtectedRoute\<close>).
  \<^item> \<open>Navigation\<close>: the browser session around \<open>App\<close> as a state machine: the
    history (push, back, forward, the replace of \<open><Navigate replace>\<close>), the storage and
    the log of renders; events are navigations and the session calls of the pages;
    reachable states are an inductive set and event sequences are folds of the step.
    Claims C10 to C12, C20, C21 and C27.
  \<^item> \<open>Session_Spec\<close>: the Session Store of the design document (section 4.1) as an
    abstract interface (\<open>save\<close>, \<open>clear\<close>, \<open>read\<close>, \<open>isPresent\<close>) and the refinement
    of it by the storage code: an abstraction function \<open>abs_session\<close>, an invariant
    \<open>session_inv\<close>, one simulation lemma per operation and the lift to runs (C25).
  \<^item> \<open>Login_Async\<close>: \<open>loginUser\<close> split at its \<open>await\<close> into the request
    (\<open>login_send\<close>) and the continuation (\<open>login_resume\<close>), so that other events can
    run while a request is in flight; the lemma \<open>loginUser_split\<close> shows the two
    halves run back to back are \<open>loginUser\<close>. Claims C26 (a logout during a login)
    and C28 (two logins in flight).
  \<^item> This theory: the properties that span services, storage and parser (C2, C9,
    C13, C14, C19).

  \<^bold>\<open>What the lemmas show.\<close> Functional behaviour of every service on every branch,
  errors included (the thrown value is the server's truthy body or the fallback
  message); the guard refines its contract; only the session code writes the storage;
  the loan form is rendered only
  with a session, a logout ends access, a login gives it; the router settles after one
  redirect; the stored profile reads back; the storage code refines the abstract
  Session Store; logins in flight interleave with other events as their responses
  arrive.

  \<^bold>\<open>Findings.\<close> A login whose response lacks \<open>user\<close> stores the text \<open>undefined\<close>
  and makes \<open>getCurrentUser\<close> throw (C13); the two session writes are not atomic
  under the quota (C8); blocked storage makes every session read throw instead of
  failing closed (C14); any truthy token is stored as its \<open>ToString\<close> (C24); a logout
  while a login request is in flight is undone when the response arrives (C26); a truthy error body
  is thrown as it is, with or without a \<open>message\<close> (C4); of two logins in flight
  the response that arrives last decides the session (C28); a string loan id is put
  into the path unencoded (C16).

  \<^bold>\<open>Bounds and fuel.\<close> The parser's fuel \<open>2 * length s + 2\<close>: each call consumes a
  character or is one of at most two calls before the next one does
  (\<open>Json_Parser.parse_value_fuel\<close>). The redirect loop \<open>render_loop\<close> needs fuel two:
  one render, one redirect to \<open>/login\<close>, which never redirects.

  \<^bold>\<open>Not modelled.\<close> The pages (\<open>Login\<close>, \<open>Register\<close>, \<open>LoanForm\<close>) are not among
  the sources; their effect is the session events of \<open>Navigation\<close>. The HTTP client
  (\<open>src/services/api.js\<close>) is not in the repository: it is modelled from the design
  document as far as the document fixes its behaviour (the bearer token read from
  storage on every request, rejection of non-\<open>2xx\<close> and absent responses); its
  timeouts, other headers and the handling of a malformed response body are neither in
  the sources nor specified precisely, so they are left out rather than guessed.
  Numbers are integers printed as plain decimals (no fractions or exponents in
  \<open>JSON.parse\<close>; JavaScript prints a number of magnitude \<open>10^21\<close> or more in
  exponent form, which \<open>String(n)\<close> in the model does not, so ids that large are
  outside the model), strings are byte strings (a \<open>\uXXXX\<close> escape above
  \<open>0xFF\<close> is rejected), objects keep insertion order (JavaScript's order of
  integer-like keys is not modelled), and the asynchrony of requests is modelled where it
  changes the outcome: \<open>loginUser\<close>, the only service that writes after its
  \<open>await\<close>, is split at it (\<open>Login_Async\<close>); the other services only read before
  their request, so running them as one step loses nothing. The navigation machine
  runs each session call as one step.
\<close>

section \<open>Properties that span the components\<close>

text \<open>
  C2. The login scenario of the design document: credentials answered by a \<open>2xx\<close>
  response carrying a truthy token and a well-formed user profile, with room in the
  storage for both entries, make \<open>loginUser\<close> resolve with the response body; afterwards
  \<open>isAuthenticated()\<close> holds and \<open>getCurrentUser()\<close> returns exactly that profile.
\<close>

theorem loginUser_establishes_session:
  assumes avail: "available st"
    and resp: "srv (login_request kvs st) = Response status (JObj dkvs)" "200 \<le> status" "status < 300"
    and tok: "map_of (rev dkvs) ''token'' = Some tok" "truthy tok" "js_to_string tok \<noteq> []"
    and usr: "map_of (rev dkvs) ''user'' = Some u" "wf_json u"
    and q1: "usage (AList.update ''token'' (js_to_string tok) (items st)) \<le> quota st"
    and q2: "usage (AList.update ''user'' (stringify u) (AList.update ''token'' (js_to_string tok) (items st))) \<le> quota st"
  shows "fst (loginUser srv (Some (JObj kvs)) st) = Inr (JObj dkvs)
       \<and> fst (isAuthenticated (snd (loginUser srv (Some (JObj kvs)) st))) = Inr True
       \<and> fst (getCurrentUser (snd (loginUser srv (Some (JObj kvs)) st))) = Inr u"
proof -
  have login: "loginUser srv (Some (JObj kvs)) st =
     (Inr (JObj dkvs), st\<lparr>items := AList.update ''user'' (stringify u) (AList.update ''token'' (js_to_string tok) (items st))\<rparr>)"
    using loginUser_writes_session [where srv = srv and kvs = kvs and status = status and dkvs = dkvs and tok = tok,
        OF avail resp tok(1,2)] q1 q2 usr by (simp add: js_str_def json_stringify_def)
  have "json_parse (stringify u) = Inr u" using usr(2) by (rule json_parse_stringify)
  with login avail tok show ?thesis
    using stringify_ne [of u] by (simp add: isAuthenticated_items getCurrentUser_items prelude_simps)
qed

theorem loginUser_establishes_session_witness:
  "fst (loginUser (\<lambda>r. Response 200 (JObj [(''token'', JStr ''t1''), (''user'', JObj [(''fullName'', JStr ''A'')])]))
          (Some (JObj [(''email'', JStr ''a@b.com''), (''password'', JStr ''x'')])) (empty_storage 100))
     = Inr (JObj [(''token'', JStr ''t1''), (''user'', JObj [(''fullName'', JStr ''A'')])])
   \<and> fst (isAuthenticated (snd (loginUser (\<lambda>r. Response 200 (JObj [(''token'', JStr ''t1''), (''user'', JObj [(''fullName'', JStr ''A'')])]))
          (Some (JObj [(''email'', JStr ''a@b.com''), (''password'', JStr ''x'')])) (empty_storage 100)))) = Inr True
   \<and> fst (getCurrentUser (snd (loginUser (\<lambda>r. Response 200 (JObj [(''token'', JStr ''t1''), (''user'', JObj [(''fullName'', JStr ''A'')])]))
          (Some (JObj [(''email'', JStr ''a@b.com''), (''password'', JStr ''x'')])) (empty_storage 100)))) = Inr (JObj [(''fullName'', JStr ''A'')])"
  by (rule loginUser_establishes_session [where status = 200 and tok = "JStr ''t1''"])
     (simp_all add: empty_storage_def usage_def weight_def entry_size_def quote_str_def esc_char_def)

text \<open>
  C9. What the session stores under \<open>user\<close> is read back unchanged: once
  \<open>localStorage.setItem('user', JSON.stringify(u))\<close> has succeeded for a well-formed
  profile \<open>u\<close>, \<open>getCurrentUser()\<close> returns \<open>u\<close>.
\<close>

theorem getCurrentUser_reads_stored_user:
  assumes "available st" "usage (AList.update ''user'' (stringify u) (items st)) \<le> quota st" "wf_json u"
  shows "fst (getCurrentUser (snd (setItem ''user'' (js_str (json_stringify (Some u))) st))) = Inr u"
proof -
  have "js_str (json_stringify (Some u)) = stringify u" by (simp add: js_str_def json_stringify_def)
  moreover have "json_parse (stringify u) = Inr u" using assms(3) by (rule json_parse_stringify)
  ultimately show ?thesis using assms(1,2) stringify_ne [of u]
    by (simp add: setItem_ok getCurrentUser_items prelude_simps)
qed

theorem getCurrentUser_reads_stored_user_witness:
  "fst (getCurrentUser (snd (setItem ''user'' (js_str (json_stringify (Some (JObj [(''fullName'', JStr ''A\<newline>B''), (''n'', JNum (-12))]))))
      (empty_storage 100)))) = Inr (JObj [(''fullName'', JStr ''A\<newline>B''), (''n'', JNum (-12))])"
  by (rule getCurrentUser_reads_stored_user)
     (simp_all add: empty_storage_def usage_def weight_def entry_size_def quote_str_def esc_char_def int_to_dec_def)

text \<open>
  C13. A \<open>2xx\<close> login response whose body has a truthy token but no \<open>user\<close> field makes
  \<open>loginUser\<close> store the string \<open>undefined\<close> under \<open>user\<close> (line 30:
  \<open>JSON.stringify(undefined)\<close> is \<open>undefined\<close>, which \<open>setItem\<close> turns into text). The login
  resolves and the session counts as authenticated, but every later \<open>getCurrentUser()\<close>
  throws a \<open>SyntaxError\<close> instead of reporting the profile absent.
\<close>

theorem loginUser_without_user_breaks_getCurrentUser:
  assumes avail: "available st"
    and resp: "srv (login_request kvs st) = Response status (JObj dkvs)" "200 \<le> status" "status < 300"
    and tok: "map_of (rev dkvs) ''token'' = Some tok" "truthy tok" "js_to_string tok \<noteq> []"
    and usr: "map_of (rev dkvs) ''user'' = None"
    and q1: "usage (AList.update ''token'' (js_to_string tok) (items st)) \<le> quota st"
    and q: "usage (AList.update ''user'' ''undefined'' (AList.update ''token'' (js_to_string tok) (items st))) \<le> quota st"
  shows "fst (loginUser srv (Some (JObj kvs)) st) = Inr (JObj dkvs)
       \<and> fst (isAuthenticated (snd (loginUser srv (Some (JObj kvs)) st))) = Inr True
       \<and> fst (getCurrentUser (snd (loginUser srv (Some (JObj kvs)) st))) = Inl SyntaxError"
proof -
  have login: "loginUser srv (Some (JObj kvs)) st =
     (Inr (JObj dkvs), st\<lparr>items := AList.update ''user'' ''undefined'' (AList.update ''token'' (js_to_string tok) (items st))\<rparr>)"
    using loginUser_writes_session [where srv = srv and kvs = kvs and status = status and dkvs = dkvs and tok = tok,
        OF avail resp tok(1,2)] q1 q usr by (simp add: js_str_def json_stringify_def)
  have "json_parse ''undefined'' = Inl SyntaxError" by code_simp
  with login avail tok show ?thesis
    by (simp add: isAuthenticated_items getCurrentUser_items prelude_simps)
qed

theorem loginUser_without_user_breaks_getCurrentUser_witness:
  "fst (loginUser (\<lambda>r. Response 200 (JObj [(''token'', JStr ''t1'')]))
          (Some (JObj [(''email'', JStr ''a@b.com''), (''password'', JStr ''x'')])) (empty_storage 100))
     = Inr (JObj [(''token'', JStr ''t1'')])
   \<and> fst (isAuthenticated (snd (loginUser (\<lambda>r. Response 200 (JObj [(''token'', JStr ''t1'')]))
          (Some (JObj [(''email'', JStr ''a@b.com''), (''password'', JStr ''x'')])) (empty_storage 100)))) = Inr True
   \<and> fst (getCurrentUser (snd (loginUser (\<lambda>r. Response 200 (JObj [(''token'', JStr ''t1'')]))
          (Some (JObj [(''email'', JStr ''a@b.com''), (''password'', JStr ''x'')])) (empty_storage 100)))) = Inl SyntaxError"
  by (rule loginUser_without_user_breaks_getCurrentUser [where status = 200 and tok = "JStr ''t1''"])
     (simp_all add: empty_storage_def usage_def weight_def entry_size_def)

text \<open>
  C14. When the browser blocks \<open>localStorage\<close>, every read of the session throws a
  \<open>SecurityError\<close> out of the service: \<open>isAuthenticated()\<close>, \<open>getCurrentUser()\<close>,
  \<open>logoutUser()\<close> and the render of the guarded route all throw instead of degrading to
  an absent session, and \<open>loginUser\<close> rejects with its fallback message before any request
  is sent, whatever the server would have answered.
\<close>

theorem unavailable_storage_throws:
  assumes "\<not> available st"
  shows "fst (isAuthenticated st) = Inl SecurityError
       \<and> fst (getCurrentUser st) = Inl SecurityError
       \<and> fst (logoutUser st) = Inl SecurityError
       \<and> fst (App ''/loan-form'' st) = Inl SecurityError
       \<and> loginUser srv (Some (JObj kvs)) st = (Inl (fallback ''Login failed''), st)"
proof -
  have r: "route_matches ''/loan-form'' ''/loan-form''" by code_simp
  have login: "loginUser srv (Some (JObj kvs)) st = (Inl (fallback ''Login failed''), st)"
    using assms by (simp add: loginUser_def api_post_def ebind_def api_request_blocked
        service_catch_def ecatch_def ethrow_def rethrow_def)
  show ?thesis
    using assms login App_guarded [OF r, of st] logoutUser_blocked [OF assms]
    by (simp add: isAuthenticated_result getCurrentUser_def ebind_def getItem_def)
qed

theorem unavailable_storage_throws_witness:
  "fst (isAuthenticated \<lparr>items = [(''token'', ''t1'')], quota = 100, available = False\<rparr>) = Inl SecurityError
   \<and> fst (getCurrentUser \<lparr>items = [(''token'', ''t1'')], quota = 100, available = False\<rparr>) = Inl SecurityError
   \<and> fst (logoutUser \<lparr>items = [(''token'', ''t1'')], quota = 100, available = False\<rparr>) = Inl SecurityError
   \<and> fst (App ''/loan-form'' \<lparr>items = [(''token'', ''t1'')], quota = 100, available = False\<rparr>) = Inl SecurityError
   \<and> loginUser (\<lambda>r. Response 200 (JObj [(''token'', JStr ''t2'')])) (Some (JObj [(''email'', JStr ''a@b.com'')]))
         \<lparr>items = [(''token'', ''t1'')], quota = 100, available = False\<rparr>
       = (Inl (fallback ''Login failed''), \<lparr>items = [(''token'', ''t1'')], quota = 100, available = False\<rparr>)"
  by (rule unavailable_storage_throws) simp

text \<open>
  C19. Only the session code writes the storage: \<open>registerUser\<close> and the three loan
  services leave \<open>localStorage\<close> as they found it on every outcome, including rejections.
\<close>

theorem services_read_only:
  "read_only (registerUser srv c) \<and> read_only (submitLoanApplication srv d)
   \<and> read_only (getUserLoans srv) \<and> read_only (getLoanDetails srv i)"
  by (simp add: registerUser_def submitLoanApplication_def getUserLoans_def getLoanDetails_def
      api_post_def api_get_def read_only_ebind prelude_simps)

end
